theory Spec2Isabelle
  imports Complex_Main "HOL-Library.AList" "HOL-Library.Multiset"
    "HOL-Library.Char_ord" "HOL-Library.List_Lexorder" "HOL-Library.Product_Lexorder"
begin

section \<open>Shared data model\<close>

text \<open>
  The classes of \<^verbatim>\<open>pyraptor.model.structures\<close> are not among the sources; the
  records below hold the attributes that the three source files read and write.
  Python objects that refer to each other in a cycle (a Stop and its Station) refer to
  each other by identifier here.  Times are seconds as unbounded Python integers.
\<close>

datatype error =
    KeyError
  | ValueError
  | AttributeError
  | UnboundLocalError
  | StationLookupError
  | StopLookupError

record stop =
  stop_id :: string
  stop_name :: string
  stop_station :: string

record station =
  station_id :: string
  station_name :: string
  station_stops :: "stop list"

record trip =
  long_name :: string

record trip_stop_time =
  tst_trip :: trip
  stopidx :: nat
  tst_stop :: stop
  dts_arr :: int
  dts_dep :: int
  fare :: real

record transfer =
  from_stop :: stop
  to_stop :: stop
  layovertime :: int

record timetable =
  stations :: "station list"
  stops :: "stop list"
  trip_stop_times :: "trip_stop_time list"
  transfers :: "transfer list"

section \<open>The range query driver (query\_range\_mcraptor.py)\<close>

text \<open>
  The collaborators of \<^verbatim>\<open>run_range_mcraptor\<close> whose code is not among the sources
  are parameters of the model, collected in one record:
  \<^item> \<open>get_stops\<close> is \<^verbatim>\<open>timetable.stations.get_stops\<close>, which may raise;
  \<^item> \<open>get_trip_stop_times_in_range\<close> is the method of \<^verbatim>\<open>timetable.trip_stop_times\<close>,
    which the driver calls with the origin stops as its only argument;
  \<^item> \<open>mcraptor_run\<close> is \<^verbatim>\<open>McRaptorAlgorithm(timetable).run\<close>; its optional fourth
    argument is an \<open>option\<close>, and it returns \<^verbatim>\<open>(bag_round_stop, actual_rounds)\<close>, the
    first a dictionary from round numbers to the bags of that round;
  \<^item> \<open>best_legs_to_destination_station\<close> and \<open>reconstruct_journeys\<close> are the two
    functions imported from \<^verbatim>\<open>pyraptor.model.mcraptor\<close>.
  The type \<open>'bag\<close> is the dictionary of one round (stop to bag), \<open>'leg\<close> a destination
  label, \<open>'journey\<close> a Journey; Python's \<^verbatim>\<open>==\<close> on journeys is equality of values.
\<close>

record ('bag, 'leg, 'journey) collaborators =
  get_stops :: "station list \<Rightarrow> string \<Rightarrow> error + stop list"
  get_trip_stop_times_in_range :: "trip_stop_time list \<Rightarrow> stop list \<Rightarrow> trip_stop_time list"
  mcraptor_run :: "timetable \<Rightarrow> stop list \<Rightarrow> int \<Rightarrow> int \<Rightarrow> 'bag option \<Rightarrow> (int \<rightharpoonup> 'bag) \<times> int"
  best_legs_to_destination_station :: "stop list \<Rightarrow> 'bag \<Rightarrow> 'leg list"
  reconstruct_journeys :: "stop list \<Rightarrow> 'leg list \<Rightarrow> (int \<rightharpoonup> 'bag) \<Rightarrow> int \<Rightarrow> 'journey list"

text \<open>
  A Python dictionary is an association list in insertion order: \<open>AList.update\<close>
  overwrites the value of a key that is present and appends a new key at the end,
  \<open>AList.delete\<close> is \<^verbatim>\<open>pop(key, None)\<close>.

  \<^verbatim>\<open>destination_stops = {st.name: timetable.stations.get_stops(st.id) for st in
  timetable.stations}\<close>: the stations are visited in order, and the first lookup that
  raises ends the comprehension.
\<close>

fun destination_stops_of ::
  "(string \<Rightarrow> error + stop list) \<Rightarrow> station list \<Rightarrow> (string \<times> stop list) list
    \<Rightarrow> error + (string \<times> stop list) list" where
  "destination_stops_of gs [] d = Inr d"
| "destination_stops_of gs (st # sts) d =
     (case gs (station_id st) of
        Inl e \<Rightarrow> Inl e
      | Inr ss \<Rightarrow> destination_stops_of gs sts (AList.update (station_name st) ss d))"

text \<open>
  \<^verbatim>\<open>sorted(list(set([tst.dts_dep for tst in potential_trip_stop_times])), reverse=True)\<close>.
  The order in which \<^verbatim>\<open>list\<close> reads a Python set is not specified, so the model takes
  it as the parameter \<open>enum\<close>: \<open>enum xs\<close> is the list that \<^verbatim>\<open>list(set(xs))\<close> yields.
  Every such enumeration lists each member once (\<open>py_set_enumeration\<close>); \<open>remdups\<close> is
  one.  \<^verbatim>\<open>sorted(_, reverse=True)\<close> on integers is the descending sort.
\<close>

definition py_set_enumeration :: "(int list \<Rightarrow> int list) \<Rightarrow> bool" where
  "py_set_enumeration enum = (\<forall>xs. distinct (enum xs) \<and> set (enum xs) = set xs)"

definition sorted_reverse :: "int list \<Rightarrow> int list" where
  "sorted_reverse xs = rev (sort xs)"

definition potential_dep_secs ::
  "(int list \<Rightarrow> int list) \<Rightarrow> ('bag, 'leg, 'journey) collaborators \<Rightarrow> timetable \<Rightarrow> stop list
    \<Rightarrow> int list" where
  "potential_dep_secs enum E tt from_stops =
     (let potential_trip_stop_times =
            get_trip_stop_times_in_range E (trip_stop_times tt) from_stops
      in sorted_reverse (enum (map dts_dep potential_trip_stop_times)))"

text \<open>
  \<^verbatim>\<open>journeys_to_destinations[name].extend(journeys)\<close>; the subscript raises KeyError
  on a key that is absent.
\<close>

definition extend_journeys ::
  "string \<Rightarrow> 'journey list \<Rightarrow> (string \<times> 'journey list) list
    \<Rightarrow> error + (string \<times> 'journey list) list" where
  "extend_journeys name js jtd =
     (case map_of jtd name of
        None \<Rightarrow> Inl KeyError
      | Some _ \<Rightarrow> Inr (AList.map_entry name (\<lambda>old. old @ js) jtd))"

text \<open>The inner loop over \<^verbatim>\<open>destination_stops.items()\<close> of one departure time.\<close>

fun collect_destinations ::
  "('bag, 'leg, 'journey) collaborators \<Rightarrow> stop list \<Rightarrow> (int \<rightharpoonup> 'bag) \<Rightarrow> int \<Rightarrow> 'bag
    \<Rightarrow> (string \<times> stop list) list \<Rightarrow> (string \<times> 'journey list) list
    \<Rightarrow> error + (string \<times> 'journey list) list" where
  "collect_destinations E from_stops bag_round_stop actual_rounds last_bag [] jtd = Inr jtd"
| "collect_destinations E from_stops bag_round_stop actual_rounds last_bag
       ((destination_station_name, to_stops) # rest) jtd =
     (let destination_legs = best_legs_to_destination_station E to_stops last_bag in
      if length destination_legs \<noteq> 0 then
        (let journeys =
               reconstruct_journeys E from_stops destination_legs bag_round_stop actual_rounds
         in case extend_journeys destination_station_name journeys jtd of
              Inl e \<Rightarrow> Inl e
            | Inr jtd' \<Rightarrow>
                collect_destinations E from_stops bag_round_stop actual_rounds last_bag rest jtd')
      else collect_destinations E from_stops bag_round_stop actual_rounds last_bag rest jtd)"

text \<open>
  The state of the loop over the departure times: the variable \<^verbatim>\<open>last_round_bag\<close>
  (\<open>None\<close> while it is unbound), the accumulator \<^verbatim>\<open>journeys_to_destinations\<close>, and
  the log of the calls made to \<^verbatim>\<open>mcraptor.run\<close>: the departure time and the seed bag
  of each call (\<open>None\<close> for the call with three arguments).
\<close>

record ('bag, 'journey) loop_state =
  last_round_bag :: "'bag option"
  journeys_to_destinations :: "(string \<times> 'journey list) list"
  run_calls :: "(int \<times> 'bag option) list"

text \<open>
  One pass of the loop body per pair of \<^verbatim>\<open>enumerate(potential_dep_secs)\<close>.
  \<^verbatim>\<open>copy(bag_round_stop[actual_rounds])\<close> raises KeyError when the round is not a key;
  the shallow copy of a value is that value.
\<close>

fun departure_loop ::
  "('bag, 'leg, 'journey) collaborators \<Rightarrow> timetable \<Rightarrow> stop list \<Rightarrow> (string \<times> stop list) list
    \<Rightarrow> int \<Rightarrow> (nat \<times> int) list \<Rightarrow> ('bag, 'journey) loop_state
    \<Rightarrow> error + ('bag, 'journey) loop_state" where
  "departure_loop E tt from_stops dests max_rounds [] s = Inr s"
| "departure_loop E tt from_stops dests max_rounds ((dep_index, dep_secs) # rest) s =
     (case (if dep_index = 0 then Inr None
            else (case last_round_bag s of
                    None \<Rightarrow> Inl UnboundLocalError
                  | Some b \<Rightarrow> Inr (Some b))) of
        Inl e \<Rightarrow> Inl e
      | Inr seed \<Rightarrow>
          (case mcraptor_run E tt from_stops dep_secs max_rounds seed of
             (bag_round_stop, actual_rounds) \<Rightarrow>
               (case bag_round_stop actual_rounds of
                  None \<Rightarrow> Inl KeyError
                | Some last_bag \<Rightarrow>
                    (case collect_destinations E from_stops bag_round_stop actual_rounds
                            last_bag dests (journeys_to_destinations s) of
                       Inl e \<Rightarrow> Inl e
                     | Inr jtd \<Rightarrow>
                         departure_loop E tt from_stops dests max_rounds rest
                           \<lparr>last_round_bag = Some last_bag,
                            journeys_to_destinations = jtd,
                            run_calls = run_calls s @ [(dep_secs, seed)]\<rparr>))))"

text \<open>
  The loop \<^verbatim>\<open>for journey in journeys: if not journey in unique_journeys:
  unique_journeys.append(journey)\<close>.
\<close>

fun unique_loop :: "'journey list \<Rightarrow> 'journey list \<Rightarrow> 'journey list" where
  "unique_loop [] unique_journeys = unique_journeys"
| "unique_loop (journey # journeys) unique_journeys =
     (if journey \<notin> set unique_journeys
      then unique_loop journeys (unique_journeys @ [journey])
      else unique_loop journeys unique_journeys)"

definition keep_unique :: "(string \<times> 'journey list) list \<Rightarrow> (string \<times> 'journey list) list" where
  "keep_unique jtd = map (\<lambda>(name, journeys). (name, unique_loop journeys [])) jtd"

definition initial_state :: "(string \<times> stop list) list \<Rightarrow> ('bag, 'journey) loop_state" where
  "initial_state dests =
     \<lparr>last_round_bag = None,
      journeys_to_destinations = map (\<lambda>(station_name, _). (station_name, [])) dests,
      run_calls = []\<rparr>"

text \<open>
  The body of \<^verbatim>\<open>run_range_mcraptor\<close> up to the end of the loop over the departure
  times.  \<^verbatim>\<open>enumerate(xs)\<close> is \<open>List.enumerate 0 xs\<close>.
\<close>

definition departure_phase ::
  "(int list \<Rightarrow> int list) \<Rightarrow> ('bag, 'leg, 'journey) collaborators \<Rightarrow> timetable \<Rightarrow> string \<Rightarrow> int
    \<Rightarrow> error + ('bag, 'journey) loop_state" where
  "departure_phase enum E tt origin_station max_rounds =
     (case get_stops E (stations tt) origin_station of
        Inl e \<Rightarrow> Inl e
      | Inr from_stops \<Rightarrow>
          (case destination_stops_of (get_stops E (stations tt)) (stations tt) [] of
             Inl e \<Rightarrow> Inl e
           | Inr all_stops \<Rightarrow>
               (let destination_stops = AList.delete origin_station all_stops;
                    deps = potential_dep_secs enum E tt from_stops
                in departure_loop E tt from_stops destination_stops max_rounds
                     (List.enumerate 0 deps) (initial_state destination_stops))))"

text \<open>
  The whole function: after the loop, every value of the dictionary is replaced by its
  list of unique journeys.
\<close>

definition run_range_mcraptor ::
  "(int list \<Rightarrow> int list) \<Rightarrow> ('bag, 'leg, 'journey) collaborators \<Rightarrow> timetable \<Rightarrow> string \<Rightarrow> int
    \<Rightarrow> error + (string \<times> 'journey list) list" where
  "run_range_mcraptor enum E tt origin_station max_rounds =
     (case departure_phase enum E tt origin_station max_rounds of
        Inl e \<Rightarrow> Inl e
      | Inr s \<Rightarrow> Inr (keep_unique (journeys_to_destinations s)))"

text \<open>
  The calls to \<^verbatim>\<open>mcraptor.run\<close> that a chain of seeded searches makes: each search is
  given the bag of the final round of the search before it.
\<close>

fun seeded_calls ::
  "('bag, 'leg, 'journey) collaborators \<Rightarrow> timetable \<Rightarrow> stop list \<Rightarrow> int \<Rightarrow> 'bag option
    \<Rightarrow> int list \<Rightarrow> (int \<times> 'bag option) list" where
  "seeded_calls E tt from_stops max_rounds seed [] = []"
| "seeded_calls E tt from_stops max_rounds seed (dep_secs # rest) =
     (dep_secs, seed) #
     (case mcraptor_run E tt from_stops dep_secs max_rounds seed of
        (bag_round_stop, actual_rounds) \<Rightarrow>
          seeded_calls E tt from_stops max_rounds (bag_round_stop actual_rounds) rest)"

text \<open>
  The candidate set as the specification words it: the departure times of the trip stop
  times of the timetable whose stop is an origin stop and whose departure lies in the
  closed window from \<open>t_lo\<close> to \<open>t_hi\<close>.
\<close>

definition spec_window_departures :: "timetable \<Rightarrow> stop list \<Rightarrow> int \<Rightarrow> int \<Rightarrow> int set" where
  "spec_window_departures tt origin_stops t_lo t_hi =
     dts_dep ` set (filter (\<lambda>t. tst_stop t \<in> set origin_stops \<and> t_lo \<le> dts_dep t \<and> dts_dep t \<le> t_hi)
                      (trip_stop_times tt))"

subsection \<open>A small network to run the driver on\<close>

text \<open>
  Three stations: A with platform a1, B with platform b1, and C without platforms.  Trips
  leave a1 at 100, 200 and again at 100 seconds, and b1 at 150 seconds.  The
  collaborators are simple stand-ins: the station lookup is by identifier, the trip stop
  times of a set of stops are all the entries at those stops, a search runs no round and
  its bag lists the departure time in front of the seed, and every label of the bag is a
  journey to every destination that has a platform.
\<close>

definition ex_a1 :: stop where
  "ex_a1 = \<lparr>stop_id = ''a1'', stop_name = ''A 1'', stop_station = ''A''\<rparr>"

definition ex_b1 :: stop where
  "ex_b1 = \<lparr>stop_id = ''b1'', stop_name = ''B 1'', stop_station = ''B''\<rparr>"

definition ex_tst :: "stop \<Rightarrow> int \<Rightarrow> trip_stop_time" where
  "ex_tst s t =
     \<lparr>tst_trip = \<lparr>long_name = ''T''\<rparr>, stopidx = 0, tst_stop = s, dts_arr = t, dts_dep = t,
      fare = 0\<rparr>"

definition ex_timetable :: timetable where
  "ex_timetable =
     \<lparr>stations =
        [\<lparr>station_id = ''A'', station_name = ''A'', station_stops = [ex_a1]\<rparr>,
         \<lparr>station_id = ''B'', station_name = ''B'', station_stops = [ex_b1]\<rparr>,
         \<lparr>station_id = ''C'', station_name = ''C'', station_stops = []\<rparr>],
      stops = [ex_a1, ex_b1],
      trip_stop_times = [ex_tst ex_a1 100, ex_tst ex_a1 200, ex_tst ex_b1 150, ex_tst ex_a1 100],
      transfers = []\<rparr>"

definition ex_get_stops :: "station list \<Rightarrow> string \<Rightarrow> error + stop list" where
  "ex_get_stops sts sid =
     (case find (\<lambda>st. station_id st = sid) sts of
        None \<Rightarrow> Inl StationLookupError
      | Some st \<Rightarrow> Inr (station_stops st))"

definition ex_collaborators :: "(int list, int, int) collaborators" where
  "ex_collaborators =
     \<lparr>get_stops = ex_get_stops,
      get_trip_stop_times_in_range = (\<lambda>tsts ss. filter (\<lambda>t. tst_stop t \<in> set ss) tsts),
      mcraptor_run =
        (\<lambda>tt fs dep_secs max_rounds seed.
           ([0 \<mapsto> dep_secs # (case seed of None \<Rightarrow> [] | Some b \<Rightarrow> b)], 0)),
      best_legs_to_destination_station = (\<lambda>to_stops bag. if to_stops = [] then [] else bag),
      reconstruct_journeys = (\<lambda>fs legs bag_round_stop k. legs)\<rparr>"

text \<open>
  The same collaborators, except that only the labels later than 1000 seconds count as
  labels of a destination: the searches of the small network reach no station, although
  another bag would.
\<close>

definition ex_late_collaborators :: "(int list, int, int) collaborators" where
  "ex_late_collaborators =
     ex_collaborators
       \<lparr>best_legs_to_destination_station :=
          (\<lambda>to_stops bag. if to_stops = [] then [] else filter (\<lambda>t. 1000 < t) bag)\<rparr>"

section \<open>Reading a GTFS feed (gtfs/timetable.py)\<close>

text \<open>
  A data frame is the list of its rows, a row a record of the columns that the source
  uses.  The files of one feed directory are the fields of \<open>gtfs_feed\<close>.  A
  \<^verbatim>\<open>parent_station\<close> that pandas reads as NaN is \<open>None\<close>.
\<close>

record agency_row =
  agency_id :: string
  agency_name :: string

record route_row =
  route_id :: string
  route_agency_id :: string

record trip_row =
  trip_route_id :: string
  trip_service_id :: string
  trip_id :: string
  trip_headsign :: string

record calendar_row =
  service_id :: string
  start_date :: int
  end_date :: int
  monday :: int
  tuesday :: int
  wednesday :: int
  thursday :: int
  friday :: int
  saturday :: int
  sunday :: int

record 'time stop_time_row =
  st_trip_id :: string
  stop_sequence :: int
  st_stop_id :: string
  arrival_time :: 'time
  departure_time :: 'time

record stops_row =
  sr_stop_id :: string
  sr_stop_name :: string
  parent_station :: "string option"

record gtfs_feed =
  agency_txt :: "agency_row list"
  routes_txt :: "route_row list"
  trips_txt :: "trip_row list"
  calendar_txt :: "calendar_row list"
  stop_times_txt :: "string stop_time_row list"
  stops_txt :: "stops_row list"

text \<open>
  A row of the trips frame after \<^verbatim>\<open>trips.merge(calendar[...], on="service_id")\<close> holds
  the columns of a trip and of a calendar row with the same \<^verbatim>\<open>service_id\<close>.
\<close>

type_synonym trip_calendar_row = "trip_row \<times> calendar_row"

record gtfs_timetable =
  gt_trips :: "trip_calendar_row list"
  gt_calendar :: "calendar_row list"
  gt_stop_times :: "int stop_time_row list"
  gt_stops :: "stops_row list"

text \<open>
  The departure date is a string of the form YYYYMMDD; the model holds its three numbers.
  \<^verbatim>\<open>datetime.strptime(departure_date, "%Y%m%d")\<close> raises ValueError unless they are a
  date of the calendar, \<^verbatim>\<open>int(departure_date)\<close> is the number with those eight digits,
  and \<^verbatim>\<open>weekday()\<close> follows the day count of Python's \<^verbatim>\<open>datetime\<close> module (Monday
  is 0).
\<close>

record departure_date =
  year :: nat
  month :: nat
  day :: nat

definition is_leap :: "nat \<Rightarrow> bool" where
  "is_leap y = (y mod 4 = 0 \<and> (y mod 100 \<noteq> 0 \<or> y mod 400 = 0))"

definition days_in_month :: "nat \<Rightarrow> nat \<Rightarrow> nat" where
  "days_in_month y m =
     (if m = 2 then (if is_leap y then 29 else 28)
      else if m \<in> {4, 6, 9, 11} then 30 else 31)"

definition valid_date :: "departure_date \<Rightarrow> bool" where
  "valid_date d =
     (1 \<le> year d \<and> year d \<le> 9999 \<and> 1 \<le> month d \<and> month d \<le> 12 \<and>
      1 \<le> day d \<and> day d \<le> days_in_month (year d) (month d))"

definition days_before_year :: "nat \<Rightarrow> nat" where
  "days_before_year y = (y - 1) * 365 + (y - 1) div 4 - (y - 1) div 100 + (y - 1) div 400"

definition days_before_month :: "nat \<Rightarrow> nat \<Rightarrow> nat" where
  "days_before_month y m =
     [0, 31, 59, 90, 120, 151, 181, 212, 243, 273, 304, 334] ! (m - 1) +
     (if m > 2 \<and> is_leap y then 1 else 0)"

definition toordinal :: "departure_date \<Rightarrow> nat" where
  "toordinal d = days_before_year (year d) + days_before_month (year d) (month d) + day d"

definition weekday :: "departure_date \<Rightarrow> nat" where
  "weekday d = (toordinal d + 6) mod 7"

definition date_as_int :: "departure_date \<Rightarrow> int" where
  "date_as_int d = int (year d * 10000 + month d * 100 + day d)"

text \<open>Lines 101 to 131: the agencies of the allow list, their routes, the trips of those routes.\<close>

definition read_routes :: "gtfs_feed \<Rightarrow> string list \<Rightarrow> route_row list" where
  "read_routes feed agencies =
     (let agencies_df = filter (\<lambda>a. agency_name a \<in> set agencies) (agency_txt feed);
          agency_ids = map agency_id agencies_df
      in filter (\<lambda>r. route_agency_id r \<in> set agency_ids) (routes_txt feed))"

definition read_trips :: "gtfs_feed \<Rightarrow> string list \<Rightarrow> trip_row list" where
  "read_trips feed agencies =
     (let routes = read_routes feed agencies
      in filter (\<lambda>t. trip_route_id t \<in> set (map route_id routes)) (trips_txt feed))"

text \<open>Lines 133 to 139: the calendar rows of the services of those trips.\<close>

definition read_calendar :: "gtfs_feed \<Rightarrow> string list \<Rightarrow> calendar_row list" where
  "read_calendar feed agencies =
     (let trips = read_trips feed agencies
      in filter (\<lambda>c. service_id c \<in> set (map trip_service_id trips)) (calendar_txt feed))"

text \<open>
  The inner join on \<^verbatim>\<open>service_id\<close>: one row for every pair of a trip and a calendar row
  with the same key, in the order of the trips.
\<close>

definition merge_on_service_id :: "trip_row list \<Rightarrow> calendar_row list \<Rightarrow> trip_calendar_row list" where
  "merge_on_service_id trips calendar =
     concat (map (\<lambda>t. map (\<lambda>c. (t, c)) (filter (\<lambda>c. service_id c = trip_service_id t) calendar))
               trips)"

text \<open>Lines 146 to 175: the chain of seven branches on the day of the week.\<close>

definition filter_on_departure_date ::
  "nat \<Rightarrow> int \<Rightarrow> trip_calendar_row list \<Rightarrow> trip_calendar_row list" where
  "filter_on_departure_date day_of_week departure_date_as_int trips =
     (let in_range = (\<lambda>rows. filter (\<lambda>r. end_date (snd r) \<ge> departure_date_as_int)
                                (filter (\<lambda>r. start_date (snd r) \<le> departure_date_as_int) rows))
      in if day_of_week = 0 then filter (\<lambda>r. monday (snd r) = 1) (in_range trips)
         else if day_of_week = 1 then filter (\<lambda>r. tuesday (snd r) = 1) (in_range trips)
         else if day_of_week = 2 then filter (\<lambda>r. wednesday (snd r) = 1) (in_range trips)
         else if day_of_week = 3 then filter (\<lambda>r. thursday (snd r) = 1) (in_range trips)
         else if day_of_week = 4 then filter (\<lambda>r. friday (snd r) = 1) (in_range trips)
         else if day_of_week = 5 then filter (\<lambda>r. saturday (snd r) = 1) (in_range trips)
         else if day_of_week = 6 then filter (\<lambda>r. sunday (snd r) = 1) (in_range trips)
         else trips)"

text \<open>
  Lines 177 to 216: the stop times of the trips that are left, their clock strings
  converted by \<^verbatim>\<open>str2sec\<close> (of \<^verbatim>\<open>pyraptor.util\<close>, a parameter), the stops that those
  stop times visit, and the rows of the parent stations of those stops.
\<close>

definition read_stop_times ::
  "(string \<Rightarrow> int) \<Rightarrow> gtfs_feed \<Rightarrow> trip_calendar_row list \<Rightarrow> int stop_time_row list" where
  "read_stop_times str2sec feed trips =
     map (\<lambda>s. \<lparr>st_trip_id = st_trip_id s, stop_sequence = stop_sequence s,
               st_stop_id = st_stop_id s, arrival_time = str2sec (arrival_time s),
               departure_time = str2sec (departure_time s)\<rparr>)
       (filter (\<lambda>s. st_trip_id s \<in> set (map (\<lambda>r. trip_id (fst r)) trips)) (stop_times_txt feed))"

definition read_stops :: "gtfs_feed \<Rightarrow> int stop_time_row list \<Rightarrow> stops_row list" where
  "read_stops feed stop_times =
     (let stops = filter (\<lambda>s. sr_stop_id s \<in> set (map st_stop_id stop_times)) (stops_txt feed);
          stopareas = remdups (map parent_station stops)
      in stops @ filter (\<lambda>s. Some (sr_stop_id s) \<in> set stopareas) (stops_txt feed))"

definition read_gtfs_timetable ::
  "(string \<Rightarrow> int) \<Rightarrow> gtfs_feed \<Rightarrow> departure_date \<Rightarrow> string list \<Rightarrow> error + gtfs_timetable" where
  "read_gtfs_timetable str2sec feed departure_date agencies =
     (let trips = read_trips feed agencies;
          calendar = read_calendar feed agencies;
          merged = merge_on_service_id trips calendar
      in if \<not> valid_date departure_date then Inl ValueError
         else
           (let day_of_week = weekday departure_date;
                departure_date_as_int = date_as_int departure_date;
                trips' = filter_on_departure_date day_of_week departure_date_as_int merged;
                stop_times = read_stop_times str2sec feed trips'
            in Inr \<lparr>gt_trips = trips', gt_calendar = calendar, gt_stop_times = stop_times,
                    gt_stops = read_stops feed stop_times\<rparr>))"

text \<open>The flag of a calendar row for a day of the week, Monday being 0.\<close>

definition day_flag :: "nat \<Rightarrow> calendar_row \<Rightarrow> int" where
  "day_flag day_of_week c =
     [monday c, tuesday c, wednesday c, thursday c, friday c, saturday c, sunday c] ! day_of_week"

section \<open>Building the timetable (gtfs/timetable.py)\<close>

text \<open>
  Modelled from the spec: the containers \<^verbatim>\<open>Stations\<close> and \<^verbatim>\<open>Stops\<close> and the classes
  \<^verbatim>\<open>Station\<close> and \<^verbatim>\<open>Stop\<close> of \<^verbatim>\<open>pyraptor.model.structures\<close> are not among the
  sources.  The specification has a Station identified by its \<^verbatim>\<open>station_id\<close> and a
  Stop identified by its \<^verbatim>\<open>stop_id\<close>: a container keeps the first object added under
  an identifier, iterates in the order of addition, and two stations, or two stops, are
  equal when their identifiers are.  A missing stop makes \<^verbatim>\<open>stops.get\<close> raise.
\<close>

definition stations_add :: "station \<Rightarrow> station list \<Rightarrow> station list" where
  "stations_add st sts = (if station_id st \<in> set (map station_id sts) then sts else sts @ [st])"

definition stops_add :: "stop \<Rightarrow> stop list \<Rightarrow> stop list" where
  "stops_add s ss = (if stop_id s \<in> set (map stop_id ss) then ss else ss @ [s])"

definition stops_get :: "stop list \<Rightarrow> string \<Rightarrow> error + stop" where
  "stops_get ss sid =
     (case find (\<lambda>s. stop_id s = sid) ss of None \<Rightarrow> Inl StopLookupError | Some s \<Rightarrow> Inr s)"

definition stop_ne :: "stop \<Rightarrow> stop \<Rightarrow> bool" where
  "stop_ne stop_i stop_j = (stop_id stop_i \<noteq> stop_id stop_j)"

text \<open>
  \<^verbatim>\<open>stop.station == x\<close>, where \<open>x\<close> is what \<^verbatim>\<open>stations.get(...)\<close> returned: a station,
  or \<open>None\<close> for Python's None.  A stop holds the identifier of its station.
\<close>

definition station_eq :: "stop \<Rightarrow> station option \<Rightarrow> bool" where
  "station_eq s x = (case x of None \<Rightarrow> False | Some st \<Rightarrow> stop_station s = station_id st)"

text \<open>
  The supplement of line 332.  The attribute \<^verbatim>\<open>trip.hint\<close> is not assigned anywhere in
  the sources, and \<^verbatim>\<open>Stations.get\<close> is not among them: both are parameters, \<open>hint\<close>
  giving the integer that the attribute holds.  The Python float 1.67 is the number
  167/100.
\<close>

definition calculate_icd_fare ::
  "(trip \<Rightarrow> int) \<Rightarrow> (station list \<Rightarrow> string \<Rightarrow> station option) \<Rightarrow> trip \<Rightarrow> stop \<Rightarrow> station list
    \<Rightarrow> real" where
  "calculate_icd_fare hint get t s sts =
     (if 900 \<le> hint t \<and> hint t \<le> 1099 then
        (if (hint t mod 2 = 0 \<and> station_eq s (get sts ''Schiphol Airport'')) \<or>
            (hint t mod 2 = 1 \<and> station_eq s (get sts ''Rotterdam Centraal''))
         then 167 / 100
         else 0)
      else 0)"

text \<open>Lines 241 to 244: a row without parent station is a station.\<close>

fun add_stations :: "stops_row list \<Rightarrow> station list \<Rightarrow> station list" where
  "add_stations [] sts = sts"
| "add_stations (s # rows) sts =
     (if parent_station s = None
      then add_stations rows
             (stations_add \<lparr>station_id = sr_stop_id s, station_name = sr_stop_name s,
                            station_stops = []\<rparr> sts)
      else add_stations rows sts)"

text \<open>
  \<^verbatim>\<open>station.add_stop(stop)\<close> appends to the stop list of the station object that
  \<^verbatim>\<open>next((station for station in stations if station.id == s.parent_station), None)\<close>
  found, the first station with that identifier.
\<close>

fun add_stop :: "string \<Rightarrow> stop \<Rightarrow> station list \<Rightarrow> station list" where
  "add_stop p s [] = []"
| "add_stop p s (st # sts) =
     (if station_id st = p then st\<lparr>station_stops := station_stops st @ [s]\<rparr> # sts
      else st # add_stop p s sts)"

text \<open>
  Lines 246 to 254: a row with a parent station is a stop of that station.  When no
  station has the identifier, \<^verbatim>\<open>station\<close> is None and \<^verbatim>\<open>station.add_stop\<close> raises
  AttributeError.
\<close>

fun add_stops :: "stops_row list \<Rightarrow> station list \<times> stop list \<Rightarrow> error + station list \<times> stop list" where
  "add_stops [] acc = Inr acc"
| "add_stops (s # rows) (sts, ss) =
     (case parent_station s of
        None \<Rightarrow> add_stops rows (sts, ss)
      | Some p \<Rightarrow>
          (case find (\<lambda>st. station_id st = p) sts of
             None \<Rightarrow> Inl AttributeError
           | Some st \<Rightarrow>
               (let new_stop = \<lparr>stop_id = sr_stop_id s, stop_name = sr_stop_name s,
                                stop_station = station_id st\<rparr>
                in add_stops rows (add_stop p new_stop sts, stops_add new_stop ss))))"

text \<open>
  Lines 277 to 290: the trip stop times of one trip, from its stop times in the order of
  \<^verbatim>\<open>stop_sequence\<close>; \<^verbatim>\<open>icd_fix is True\<close> is the truth value \<open>icd_fix\<close>.
\<close>

fun trip_stop_times_of ::
  "(trip \<Rightarrow> int) \<Rightarrow> (station list \<Rightarrow> string \<Rightarrow> station option) \<Rightarrow> bool \<Rightarrow> station list
    \<Rightarrow> stop list \<Rightarrow> trip \<Rightarrow> (nat \<times> int stop_time_row) list \<Rightarrow> error + trip_stop_time list" where
  "trip_stop_times_of hint get icd_fix sts ss t [] = Inr []"
| "trip_stop_times_of hint get icd_fix sts ss t ((idx, stop_time) # rest) =
     (case stops_get ss (st_stop_id stop_time) of
        Inl e \<Rightarrow> Inl e
      | Inr s \<Rightarrow>
          (let fare = (if icd_fix then calculate_icd_fare hint get t s sts else 0);
               trip_stop_time =
                 \<lparr>tst_trip = t, stopidx = idx, tst_stop = s,
                  dts_arr = arrival_time stop_time, dts_dep = departure_time stop_time,
                  fare = fare\<rparr>
           in case trip_stop_times_of hint get icd_fix sts ss t rest of
                Inl e \<Rightarrow> Inl e
              | Inr tsts \<Rightarrow> Inr (trip_stop_time # tsts)))"

text \<open>
  Lines 259 to 294: the loop over the rows of the trips frame.  The stop times of a trip
  are the rows with its \<^verbatim>\<open>trip_id\<close>, sorted by \<^verbatim>\<open>int(stop_sequence)\<close> (a stable sort).
\<close>

fun add_trips ::
  "(trip \<Rightarrow> int) \<Rightarrow> (station list \<Rightarrow> string \<Rightarrow> station option) \<Rightarrow> bool \<Rightarrow> station list
    \<Rightarrow> stop list \<Rightarrow> int stop_time_row list \<Rightarrow> trip_calendar_row list
    \<Rightarrow> error + trip_stop_time list" where
  "add_trips hint get icd_fix sts ss stop_times [] = Inr []"
| "add_trips hint get icd_fix sts ss stop_times (trip_row # rows) =
     (let t = \<lparr>long_name = trip_headsign (fst trip_row)\<rparr>;
          sort_stop_times =
            sort_key stop_sequence
              (filter (\<lambda>s. st_trip_id s = trip_id (fst trip_row)) stop_times)
      in case trip_stop_times_of hint get icd_fix sts ss t (List.enumerate 0 sort_stop_times) of
           Inl e \<Rightarrow> Inl e
         | Inr tsts \<Rightarrow>
             (case add_trips hint get icd_fix sts ss stop_times rows of
                Inl e \<Rightarrow> Inl e
              | Inr later \<Rightarrow> Inr (tsts @ later)))"

text \<open>
  Lines 306 to 316: the transfers of one station and of all stations.  \<^verbatim>\<open>TRANSFER_COST\<close>
  is a constant of \<^verbatim>\<open>pyraptor.util\<close>, a parameter here.
\<close>

definition station_transfers :: "int \<Rightarrow> station \<Rightarrow> transfer list" where
  "station_transfers TRANSFER_COST st =
     concat (map (\<lambda>stop_i.
                    map (\<lambda>stop_j. \<lparr>from_stop = stop_i, to_stop = stop_j,
                                   layovertime = TRANSFER_COST\<rparr>)
                      (filter (\<lambda>stop_j. stop_ne stop_i stop_j) (station_stops st)))
               (station_stops st))"

definition add_transfers :: "int \<Rightarrow> station list \<Rightarrow> transfer list" where
  "add_transfers TRANSFER_COST sts = concat (map (station_transfers TRANSFER_COST) sts)"

text \<open>
  The whole function.  The result holds the stations, the stops, the trip stop times in
  the order of their construction, and the transfers; the containers \<^verbatim>\<open>Trips\<close> and
  \<^verbatim>\<open>Routes\<close>, which no property below reads, are left out.
\<close>

definition gtfs_to_pyraptor_timetable ::
  "(trip \<Rightarrow> int) \<Rightarrow> (station list \<Rightarrow> string \<Rightarrow> station option) \<Rightarrow> int \<Rightarrow> gtfs_timetable \<Rightarrow> bool
    \<Rightarrow> error + timetable" where
  "gtfs_to_pyraptor_timetable hint get TRANSFER_COST gtfs icd_fix =
     (let stations0 = add_stations (gt_stops gtfs) []
      in case add_stops (gt_stops gtfs) (stations0, []) of
           Inl e \<Rightarrow> Inl e
         | Inr (sts, ss) \<Rightarrow>
             (case add_trips hint get icd_fix sts ss (gt_stop_times gtfs) (gt_trips gtfs) of
                Inl e \<Rightarrow> Inl e
              | Inr tsts \<Rightarrow>
                  Inr \<lparr>stations = sts, stops = ss, trip_stop_times = tsts,
                       transfers = add_transfers TRANSFER_COST sts\<rparr>))"

subsection \<open>A small feed\<close>

text \<open>
  One agency with one route and two trips, of which one runs on Thursdays in 2025 and one
  on Saturdays; a station S with platforms p1 and p2 and a station R with platform q1.
\<close>

definition ex_calendar_row :: "string \<Rightarrow> int \<Rightarrow> int \<Rightarrow> calendar_row" where
  "ex_calendar_row sid thu sat =
     \<lparr>service_id = sid, start_date = 20250101, end_date = 20251231, monday = 0, tuesday = 0,
      wednesday = 0, thursday = thu, friday = 0, saturday = sat, sunday = 0\<rparr>"

definition ex_stop_time :: "string \<Rightarrow> int \<Rightarrow> string \<Rightarrow> string \<Rightarrow> string stop_time_row" where
  "ex_stop_time tid seq sid t =
     \<lparr>st_trip_id = tid, stop_sequence = seq, st_stop_id = sid, arrival_time = t,
      departure_time = t\<rparr>"

definition ex_feed :: gtfs_feed where
  "ex_feed =
     \<lparr>agency_txt = [\<lparr>agency_id = ''ag1'', agency_name = ''Sydney Trains''\<rparr>,
                    \<lparr>agency_id = ''ag2'', agency_name = ''Other''\<rparr>],
      routes_txt = [\<lparr>route_id = ''r1'', route_agency_id = ''ag1''\<rparr>,
                    \<lparr>route_id = ''r2'', route_agency_id = ''ag2''\<rparr>],
      trips_txt = [\<lparr>trip_route_id = ''r1'', trip_service_id = ''weekday'', trip_id = ''t1'',
                    trip_headsign = ''City''\<rparr>,
                   \<lparr>trip_route_id = ''r1'', trip_service_id = ''weekend'', trip_id = ''t2'',
                    trip_headsign = ''City''\<rparr>,
                   \<lparr>trip_route_id = ''r2'', trip_service_id = ''weekday'', trip_id = ''t3'',
                    trip_headsign = ''Far''\<rparr>],
      calendar_txt = [ex_calendar_row ''weekday'' 1 0, ex_calendar_row ''weekend'' 0 1],
      stop_times_txt = [ex_stop_time ''t1'' 2 ''q1'' ''b'', ex_stop_time ''t1'' 1 ''p1'' ''a'',
                        ex_stop_time ''t2'' 1 ''p2'' ''a''],
      stops_txt = [\<lparr>sr_stop_id = ''S'', sr_stop_name = ''South'', parent_station = None\<rparr>,
                   \<lparr>sr_stop_id = ''R'', sr_stop_name = ''Rotterdam Centraal'', parent_station = None\<rparr>,
                   \<lparr>sr_stop_id = ''p1'', sr_stop_name = ''South 1'', parent_station = Some ''S''\<rparr>,
                   \<lparr>sr_stop_id = ''p2'', sr_stop_name = ''South 2'', parent_station = Some ''S''\<rparr>,
                   \<lparr>sr_stop_id = ''q1'', sr_stop_name = ''Rotterdam 1'', parent_station = Some ''R''\<rparr>]\<rparr>"

definition ex_str2sec :: "string \<Rightarrow> int" where
  "ex_str2sec t = (if t = ''a'' then 28800 else 29400)"

definition ex_date :: departure_date where
  "ex_date = \<lparr>year = 2025, month = 4, day = 3\<rparr>"

definition ex_stations_get :: "station list \<Rightarrow> string \<Rightarrow> station option" where
  "ex_stations_get sts name = find (\<lambda>st. station_name st = name) sts"

definition ex_gtfs :: gtfs_timetable where
  "ex_gtfs =
     \<lparr>gt_trips = [(\<lparr>trip_route_id = ''r1'', trip_service_id = ''weekday'', trip_id = ''t1'',
                     trip_headsign = ''City''\<rparr>, ex_calendar_row ''weekday'' 1 0)],
      gt_calendar = [ex_calendar_row ''weekday'' 1 0],
      gt_stop_times =
        [\<lparr>st_trip_id = ''t1'', stop_sequence = 2, st_stop_id = ''q1'', arrival_time = 29400,
          departure_time = 29400\<rparr>,
         \<lparr>st_trip_id = ''t1'', stop_sequence = 1, st_stop_id = ''p1'', arrival_time = 28800,
          departure_time = 28800\<rparr>],
      gt_stops = stops_txt ex_feed\<rparr>"

section \<open>Comparing journey files (testing.py)\<close>

text \<open>
  The journeys are the dictionaries that \<^verbatim>\<open>json.load\<close> returns.  The model covers the
  files in which the values of the fields that the comparison reads are JSON null,
  integers or strings (\<open>scalar\<close>), and in which the elements of a \<^verbatim>\<open>legs\<close> list are
  dictionaries of such values.  A journey is its dictionary of those fields together
  with its \<^verbatim>\<open>legs\<close> list, \<open>None\<close> when the key is absent or its value is not a list.
\<close>

datatype scalar = SNone | SInt int | SStr string

type_synonym leg = "string \<rightharpoonup> scalar"

record journey =
  attributes :: "string \<rightharpoonup> scalar"
  legs :: "leg list option"

text \<open>\<^verbatim>\<open>d.get(k)\<close> and \<^verbatim>\<open>d.get(k, default)\<close>.\<close>

definition dict_get :: "(string \<rightharpoonup> scalar) \<Rightarrow> string \<Rightarrow> scalar" where
  "dict_get d k = (case d k of None \<Rightarrow> SNone | Some v \<Rightarrow> v)"

definition dict_get_default :: "(string \<rightharpoonup> scalar) \<Rightarrow> string \<Rightarrow> scalar \<Rightarrow> scalar" where
  "dict_get_default d k fallback = (case d k of None \<Rightarrow> fallback | Some v \<Rightarrow> v)"

text \<open>
  Python's \<^verbatim>\<open><\<close> on two values: integers by size, strings by code point in
  lexicographic order, and TypeError (\<open>None\<close>) for None and for values of two types.
  On tuples, \<^verbatim>\<open><\<close> compares the first components that are not equal, and is false when
  there are none.
\<close>

fun scalar_lt :: "scalar \<Rightarrow> scalar \<Rightarrow> bool option" where
  "scalar_lt (SInt a) (SInt b) = Some (a < b)"
| "scalar_lt (SStr a) (SStr b) = Some (a < b)"
| "scalar_lt _ _ = None"

type_synonym sort_key = "scalar \<times> scalar \<times> scalar"

fun key_lt :: "sort_key \<Rightarrow> sort_key \<Rightarrow> bool option" where
  "key_lt (a1, a2, a3) (b1, b2, b3) =
     (if a1 \<noteq> b1 then scalar_lt a1 b1
      else if a2 \<noteq> b2 then scalar_lt a2 b2
      else if a3 \<noteq> b3 then scalar_lt a3 b3
      else Some False)"

text \<open>The key of line 31.\<close>

definition leg_key :: "leg \<Rightarrow> sort_key" where
  "leg_key x =
     (dict_get_default x ''departure_time'' (SStr ''''),
      dict_get_default x ''route_id'' (SStr ''''),
      dict_get_default x ''from_stop'' (SStr ''''))"

text \<open>
  \<^verbatim>\<open>sorted(legs, key=...)\<close> is a stable sort that compares keys with \<^verbatim>\<open><\<close>.  It
  raises TypeError when two of the keys cannot be compared: the order of two such keys
  follows from no comparison with a third key, so a sort that does not compare them
  cannot place them.  Otherwise the result is that of the stable insertion sort.
\<close>

definition comparable_keys :: "sort_key list \<Rightarrow> bool" where
  "comparable_keys ks = list_all (\<lambda>a. list_all (\<lambda>b. key_lt a b \<noteq> None) ks) ks"

fun insert_leg :: "leg \<Rightarrow> leg list \<Rightarrow> leg list" where
  "insert_leg x [] = [x]"
| "insert_leg x (y # ys) =
     (if key_lt (leg_key y) (leg_key x) = Some True then y # insert_leg x ys else x # y # ys)"

definition sorted_legs :: "leg list \<Rightarrow> leg list option" where
  "sorted_legs ls =
     (if comparable_keys (map leg_key ls) then Some (foldr insert_leg ls []) else None)"

text \<open>
  \<^verbatim>\<open>normalize_journey\<close>: the copy with its legs sorted, or with the legs in their
  original order when the sort raised TypeError.
\<close>

definition normalize_journey :: "journey \<Rightarrow> journey" where
  "normalize_journey j =
     (case legs j of
        None \<Rightarrow> j
      | Some ls \<Rightarrow>
          (case sorted_legs ls of
             None \<Rightarrow> j
           | Some sorted_ls \<Rightarrow> j\<lparr>legs := Some sorted_ls\<rparr>))"

text \<open>
  \<^verbatim>\<open>journey_to_comparable_tuple\<close>.  On the journeys of the model nothing in its
  \<^verbatim>\<open>try\<close> block raises, so the fallback \<^verbatim>\<open>(str(journey),)\<close> is not taken.
\<close>

type_synonym leg_tuple = "scalar \<times> scalar \<times> scalar \<times> scalar \<times> scalar"

type_synonym comparable_tuple = "scalar \<times> scalar \<times> scalar \<times> scalar \<times> leg_tuple list"

definition leg_to_tuple :: "leg \<Rightarrow> leg_tuple" where
  "leg_to_tuple l =
     (dict_get l ''route_id'', dict_get l ''from_stop'', dict_get l ''to_stop'',
      dict_get l ''departure_time'', dict_get l ''arrival_time'')"

definition journey_to_comparable_tuple :: "journey \<Rightarrow> comparable_tuple" where
  "journey_to_comparable_tuple j =
     (let departure_time = dict_get (attributes j) ''departure_time'';
          arrival_time = dict_get (attributes j) ''arrival_time'';
          total_duration = dict_get (attributes j) ''total_duration'';
          num_transfers = dict_get_default (attributes j) ''num_transfers'' (SInt 0);
          legs_info = (case legs j of None \<Rightarrow> [] | Some ls \<Rightarrow> map leg_to_tuple ls)
      in (departure_time, arrival_time, total_duration, num_transfers, legs_info))"

text \<open>
  \<^verbatim>\<open>compare_journey_sets\<close>.  The two samples \<^verbatim>\<open>list(only_in_original)[:5]\<close> and
  \<^verbatim>\<open>list(only_in_parallel)[:5]\<close> depend on the order in which a set is read and are
  left out of the result.
\<close>

record comparison =
  original_count :: nat
  parallel_count :: nat
  original_unique_count :: nat
  parallel_unique_count :: nat
  common_count :: nat
  only_in_original_count :: nat
  only_in_parallel_count :: nat
  identical :: bool

definition compare_journey_sets :: "journey list \<Rightarrow> journey list \<Rightarrow> comparison" where
  "compare_journey_sets original_journeys parallel_journeys =
     (let original_set =
            set (map (\<lambda>j. journey_to_comparable_tuple (normalize_journey j)) original_journeys);
          parallel_set =
            set (map (\<lambda>j. journey_to_comparable_tuple (normalize_journey j)) parallel_journeys);
          only_in_original = original_set - parallel_set;
          only_in_parallel = parallel_set - original_set;
          common = original_set \<inter> parallel_set
      in \<lparr>original_count = length original_journeys,
          parallel_count = length parallel_journeys,
          original_unique_count = card original_set,
          parallel_unique_count = card parallel_set,
          common_count = card common,
          only_in_original_count = card only_in_original,
          only_in_parallel_count = card only_in_parallel,
          identical = (card only_in_original = 0 \<and> card only_in_parallel = 0)\<rparr>)"

subsection \<open>Two legs with the same sort key\<close>

text \<open>
  A journey with two legs that leave the same stop on the same route at the same time for
  different stops, and the same journey with the two legs in the other order.
\<close>

definition ex_leg :: "string \<Rightarrow> string \<Rightarrow> string \<Rightarrow> leg" where
  "ex_leg dep dest arr =
     [''route_id'' \<mapsto> SStr ''R1'', ''from_stop'' \<mapsto> SStr ''A1'', ''to_stop'' \<mapsto> SStr dest,
      ''departure_time'' \<mapsto> SStr dep, ''arrival_time'' \<mapsto> SStr arr]"

definition ex_journey :: "leg list \<Rightarrow> journey" where
  "ex_journey ls =
     \<lparr>attributes = [''departure_time'' \<mapsto> SStr ''08:00:00'', ''arrival_time'' \<mapsto> SStr ''08:20:00'',
                ''total_duration'' \<mapsto> SStr ''00:20:00'', ''num_transfers'' \<mapsto> SInt 0],
      legs = Some ls\<rparr>"

definition ex_tied_legs :: "leg list" where
  "ex_tied_legs = [ex_leg ''08:00:00'' ''B1'' ''08:10:00'', ex_leg ''08:00:00'' ''C1'' ''08:20:00'']"

definition ex_ordered_legs :: "leg list" where
  "ex_ordered_legs = [ex_leg ''08:00:00'' ''B1'' ''08:10:00'', ex_leg ''08:11:00'' ''C1'' ''08:20:00'']"

subsection \<open>An embedding of the sort keys into a linear order\<close>

text \<open>
  Where Python compares two keys, it orders them as these ranks are ordered (None before
  every integer, every integer before every string); the proofs use the ranks to read the
  insertion sort above as the library's \<open>sort_key\<close>.
\<close>

fun scalar_rank :: "scalar \<Rightarrow> nat \<times> int \<times> string" where
  "scalar_rank SNone = (0, 0, [])"
| "scalar_rank (SInt i) = (1, i, [])"
| "scalar_rank (SStr s) = (2, 0, s)"

fun key_rank ::
  "sort_key \<Rightarrow> (nat \<times> int \<times> string) \<times> (nat \<times> int \<times> string) \<times> (nat \<times> int \<times> string)" where
  "key_rank (a, b, c) = (scalar_rank a, scalar_rank b, scalar_rank c)"

section \<open>Properties of the range query driver\<close>

subsection \<open>Auxiliary facts\<close>

lemma set_sorted_reverse: "set (sorted_reverse xs) = set xs"
  by (simp add: sorted_reverse_def)

lemma sorted_reverse_strict: "distinct xs \<Longrightarrow> sorted_wrt (>) (sorted_reverse xs)"
  by (simp add: sorted_reverse_def sorted_wrt_rev strict_sorted_iff)

lemma sorted_reverse_enum:
  assumes "py_set_enumeration e1" "py_set_enumeration e2"
  shows "sorted_reverse (e1 xs) = sorted_reverse (e2 xs)"
proof -
  have "sort (e1 xs) = sort (e2 xs)"
    using assms by (intro sorted_distinct_set_unique) (auto simp: py_set_enumeration_def)
  then show ?thesis by (simp add: sorted_reverse_def)
qed

lemma py_set_enumeration_remdups: "py_set_enumeration remdups"
  by (simp add: py_set_enumeration_def)

lemma departure_loop_calls:
  "departure_loop E tt fs dests k (List.enumerate n deps) s = Inr s' \<Longrightarrow>
   run_calls s' =
     run_calls s @ seeded_calls E tt fs k (if n = 0 then None else last_round_bag s) deps \<and>
   (\<forall>i. Suc i < length deps \<longrightarrow>
      snd (seeded_calls E tt fs k (if n = 0 then None else last_round_bag s) deps ! Suc i) \<noteq> None)"
proof (induction deps arbitrary: n s)
  case Nil
  then show ?case by simp
next
  case (Cons d ds)
  let ?seed = "if n = 0 then None else last_round_bag s"
  obtain brs ar where run: "mcraptor_run E tt fs d k ?seed = (brs, ar)"
    by (cases "mcraptor_run E tt fs d k ?seed")
  from Cons.prems have ok: "n = 0 \<or> last_round_bag s \<noteq> None"
    by (auto split: if_splits option.splits)
  from Cons.prems run ok obtain lb jtd where
    lb: "brs ar = Some lb" and
    rest: "departure_loop E tt fs dests k (List.enumerate (Suc n) ds)
             \<lparr>last_round_bag = Some lb, journeys_to_destinations = jtd,
              run_calls = run_calls s @ [(d, ?seed)]\<rparr> = Inr s'"
    by (auto split: if_splits option.splits sum.splits)
  from Cons.IH[OF rest] have
    calls: "run_calls s' = (run_calls s @ [(d, ?seed)]) @ seeded_calls E tt fs k (Some lb) ds" and
    seeds: "\<forall>i. Suc i < length ds \<longrightarrow> snd (seeded_calls E tt fs k (Some lb) ds ! Suc i) \<noteq> None"
    by simp_all
  have first: "ds \<noteq> [] \<Longrightarrow> snd (seeded_calls E tt fs k (Some lb) ds ! 0) \<noteq> None"
    by (cases ds) simp_all
  have "\<forall>i. Suc i < length (d # ds) \<longrightarrow>
          snd (seeded_calls E tt fs k ?seed (d # ds) ! Suc i) \<noteq> None"
  proof (intro allI impI)
    fix i assume "Suc i < length (d # ds)"
    then show "snd (seeded_calls E tt fs k ?seed (d # ds) ! Suc i) \<noteq> None"
      using run lb seeds first by (cases i) auto
  qed
  with calls run lb show ?case by simp
qed

lemma length_seeded_calls: "length (seeded_calls E tt fs k seed deps) = length deps"
  by (induction deps arbitrary: seed) (auto split: prod.splits)

lemma map_fst_seeded_calls: "map fst (seeded_calls E tt fs k seed deps) = deps"
  by (induction deps arbitrary: seed) (auto split: prod.splits)

lemma seeded_calls_first: "deps \<noteq> [] \<Longrightarrow> snd (seeded_calls E tt fs k seed deps ! 0) = seed"
  by (cases deps) simp_all

lemma seeded_calls_next:
  "Suc i < length deps \<Longrightarrow>
   snd (seeded_calls E tt fs k seed deps ! Suc i) =
     (case mcraptor_run E tt fs (deps ! i) k (snd (seeded_calls E tt fs k seed deps ! i)) of
        (bag_round_stop, actual_rounds) \<Rightarrow> bag_round_stop actual_rounds)"
proof (induction deps arbitrary: seed i)
  case Nil
  then show ?case by simp
next
  case (Cons d ds)
  show ?case
  proof (cases i)
    case 0
    with Cons.prems show ?thesis
      by (cases ds) (auto split: prod.splits)
  next
    case (Suc j)
    with Cons.prems have "Suc j < length ds" by simp
    from Cons.IH[OF this] Suc show ?thesis
      by (auto split: prod.splits)
  qed
qed

lemma keys_destination_stops_of:
  "destination_stops_of gs sts d = Inr r \<Longrightarrow>
   set (map fst r) = set (map fst d) \<union> station_name ` set sts \<and>
   (distinct (map fst d) \<longrightarrow> distinct (map fst r))"
proof (induction sts arbitrary: d)
  case Nil
  then show ?case by simp
next
  case (Cons st sts)
  from Cons.prems obtain ss where
    "destination_stops_of gs sts (AList.update (station_name st) ss d) = Inr r"
    by (auto split: sum.splits)
  from Cons.IH[OF this] show ?case
    by (auto simp: update_keys distinct_update)
qed

lemma keys_map_entry: "map fst (AList.map_entry k f al) = map fst al"
  by (induction al) auto

lemma keys_extend_journeys: "extend_journeys name js jtd = Inr jtd' \<Longrightarrow> map fst jtd' = map fst jtd"
  by (auto simp: extend_journeys_def keys_map_entry split: option.splits)

lemma keys_collect_destinations:
  "collect_destinations E fs brs ar lb dests jtd = Inr jtd' \<Longrightarrow> map fst jtd' = map fst jtd"
proof (induction dests arbitrary: jtd)
  case Nil
  then show ?case by simp
next
  case (Cons p dests)
  obtain name to_stops where p: "p = (name, to_stops)" by (cases p)
  show ?case
  proof (cases "length (best_legs_to_destination_station E to_stops lb) \<noteq> 0")
    case True
    with Cons.prems p obtain jtd1 where
      e: "extend_journeys name
            (reconstruct_journeys E fs (best_legs_to_destination_station E to_stops lb) brs ar) jtd
          = Inr jtd1" and
      r: "collect_destinations E fs brs ar lb dests jtd1 = Inr jtd'"
      by (auto simp: Let_def split: sum.splits)
    from Cons.IH[OF r] keys_extend_journeys[OF e] show ?thesis by simp
  next
    case False
    with Cons.prems p have "collect_destinations E fs brs ar lb dests jtd = Inr jtd'"
      by (simp add: Let_def)
    from Cons.IH[OF this] show ?thesis .
  qed
qed

lemma keys_departure_loop:
  "departure_loop E tt fs dests k ideps s = Inr s' \<Longrightarrow>
   map fst (journeys_to_destinations s') = map fst (journeys_to_destinations s)"
proof (induction ideps arbitrary: s)
  case Nil
  then show ?case by simp
next
  case (Cons p ideps)
  obtain idx d where p: "p = (idx, d)" by (cases p)
  from Cons.prems p obtain seed brs ar lb jtd where
    c: "collect_destinations E fs brs ar lb dests (journeys_to_destinations s) = Inr jtd" and
    r: "departure_loop E tt fs dests k ideps
          \<lparr>last_round_bag = Some lb, journeys_to_destinations = jtd,
           run_calls = run_calls s @ [(d, seed)]\<rparr> = Inr s'"
    by (auto split: if_splits option.splits sum.splits prod.splits)
  from Cons.IH[OF r] keys_collect_destinations[OF c] show ?case by simp
qed

lemma keys_keep_unique: "map fst (keep_unique jtd) = map fst jtd"
  by (induction jtd) (auto simp: keep_unique_def)

lemma keys_initial_state: "map fst (journeys_to_destinations (initial_state dests)) = map fst dests"
  by (induction dests) (auto simp: initial_state_def)

lemma keys_departure_phase:
  assumes "departure_phase enum E tt origin k = Inr s"
  shows "set (map fst (journeys_to_destinations s)) = station_name ` set (stations tt) - {origin}"
    and "distinct (map fst (journeys_to_destinations s))"
proof -
  from assms obtain fs all_stops where
    d: "destination_stops_of (get_stops E (stations tt)) (stations tt) [] = Inr all_stops" and
    l: "departure_loop E tt fs (AList.delete origin all_stops) k
          (List.enumerate 0 (potential_dep_secs enum E tt fs))
          (initial_state (AList.delete origin all_stops)) = Inr s"
    by (auto simp: departure_phase_def Let_def split: sum.splits)
  have keys: "map fst (journeys_to_destinations s) = map fst (AList.delete origin all_stops)"
    using keys_departure_loop[OF l] by (simp add: keys_initial_state)
  from keys_destination_stops_of[OF d] have
    a: "set (map fst all_stops) = station_name ` set (stations tt)" and
    b: "distinct (map fst all_stops)"
    by simp_all
  show "set (map fst (journeys_to_destinations s)) = station_name ` set (stations tt) - {origin}"
    using keys a by (auto simp: delete_keys)
  show "distinct (map fst (journeys_to_destinations s))"
    using keys b by (simp add: delete_keys distinct_removeAll)
qed

lemma unique_loop_first_occurrences:
  "unique_loop js u =
     u @ map snd (filter (\<lambda>(i, j). j \<notin> set u \<union> set (take (i - n) js)) (List.enumerate n js))"
proof (induction js arbitrary: u n)
  case Nil
  then show ?case by simp
next
  case (Cons x xs)
  have shift: "\<And>v. filter (\<lambda>(i, j). j \<notin> v \<union> set (take (i - n) (x # xs))) (List.enumerate (Suc n) xs)
        = filter (\<lambda>(i, j). j \<notin> insert x v \<union> set (take (i - Suc n) xs)) (List.enumerate (Suc n) xs)"
  proof (rule filter_cong[OF refl])
    fix v p assume "p \<in> set (List.enumerate (Suc n) xs)"
    then have "Suc n \<le> fst p" by (auto simp: in_set_enumerate_eq)
    then obtain m where "fst p - n = Suc m" "fst p - Suc n = m"
      by (metis Suc_diff_le diff_Suc_Suc)
    then show "(case p of (i, j) \<Rightarrow> j \<notin> v \<union> set (take (i - n) (x # xs)))
             = (case p of (i, j) \<Rightarrow> j \<notin> insert x v \<union> set (take (i - Suc n) xs))"
      by (cases p) auto
  qed
  show ?case
  proof (cases "x \<in> set u")
    case True
    then have "insert x (set u) = set u" by auto
    with True Cons.IH[of u "Suc n"] shift[of "set u"] show ?thesis by simp
  next
    case False
    with Cons.IH[of "u @ [x]" "Suc n"] shift[of "set u"] show ?thesis by simp
  qed
qed

lemma unique_loop_distinct: "distinct u \<Longrightarrow> distinct (unique_loop js u)"
  by (induction js arbitrary: u) auto

lemma untouched_extend_journeys:
  "extend_journeys n js jtd = Inr jtd' \<Longrightarrow> n \<noteq> name \<or> js = [] \<Longrightarrow>
   map_of jtd' name = map_of jtd name"
  by (auto simp: extend_journeys_def map_of_map_entry split: option.splits)

lemma untouched_collect_destinations:
  "collect_destinations E fs brs ar lb dests jtd = Inr jtd' \<Longrightarrow>
   \<forall>to_stops. (name, to_stops) \<in> set dests \<longrightarrow>
      best_legs_to_destination_station E to_stops lb = [] \<or>
      reconstruct_journeys E fs (best_legs_to_destination_station E to_stops lb) brs ar = [] \<Longrightarrow>
   map_of jtd' name = map_of jtd name"
proof (induction dests arbitrary: jtd)
  case Nil
  then show ?case by simp
next
  case (Cons p dests)
  obtain n to_stops where p: "p = (n, to_stops)" by (cases p)
  from Cons.prems(2) have rest:
    "\<forall>to_stops. (name, to_stops) \<in> set dests \<longrightarrow>
      best_legs_to_destination_station E to_stops lb = [] \<or>
      reconstruct_journeys E fs (best_legs_to_destination_station E to_stops lb) brs ar = []"
    by simp
  show ?case
  proof (cases "length (best_legs_to_destination_station E to_stops lb) \<noteq> 0")
    case True
    with Cons.prems(1) p obtain jtd1 where
      e: "extend_journeys n
            (reconstruct_journeys E fs (best_legs_to_destination_station E to_stops lb) brs ar) jtd
          = Inr jtd1" and
      r: "collect_destinations E fs brs ar lb dests jtd1 = Inr jtd'"
      by (auto simp: Let_def split: sum.splits)
    from True Cons.prems(2) p have
      "n \<noteq> name \<or>
       reconstruct_journeys E fs (best_legs_to_destination_station E to_stops lb) brs ar = []"
      by auto
    from untouched_extend_journeys[OF e this] Cons.IH[OF r rest] show ?thesis by simp
  next
    case False
    with Cons.prems(1) p have "collect_destinations E fs brs ar lb dests jtd = Inr jtd'"
      by (simp add: Let_def)
    from Cons.IH[OF this rest] show ?thesis .
  qed
qed

lemma run_calls_departure_loop_mono:
  "departure_loop E tt fs dests k ideps s = Inr s' \<Longrightarrow> set (run_calls s) \<subseteq> set (run_calls s')"
proof (induction ideps arbitrary: s)
  case Nil
  then show ?case by simp
next
  case (Cons p ideps)
  obtain idx d where p: "p = (idx, d)" by (cases p)
  from Cons.prems p obtain seed lb jtd where
    r: "departure_loop E tt fs dests k ideps
          \<lparr>last_round_bag = Some lb, journeys_to_destinations = jtd,
           run_calls = run_calls s @ [(d, seed)]\<rparr> = Inr s'"
    by (auto split: if_splits option.splits sum.splits prod.splits)
  from Cons.IH[OF r] show ?case by simp
qed

lemma untouched_departure_loop_run:
  "departure_loop E tt fs dests k ideps s = Inr s' \<Longrightarrow>
   \<forall>to_stops dep seed brs ar bag.
      (name, to_stops) \<in> set dests \<and> (dep, seed) \<in> set (run_calls s') \<and>
      mcraptor_run E tt fs dep k seed = (brs, ar) \<and> brs ar = Some bag \<longrightarrow>
      best_legs_to_destination_station E to_stops bag = [] \<or>
      reconstruct_journeys E fs (best_legs_to_destination_station E to_stops bag) brs ar = [] \<Longrightarrow>
   map_of (journeys_to_destinations s') name = map_of (journeys_to_destinations s) name"
proof (induction ideps arbitrary: s)
  case Nil
  then show ?case by simp
next
  case (Cons p ideps)
  obtain idx d where p: "p = (idx, d)" by (cases p)
  from Cons.prems(1) p obtain seed brs ar lb jtd where
    run: "mcraptor_run E tt fs d k seed = (brs, ar)" and
    lb: "brs ar = Some lb" and
    c: "collect_destinations E fs brs ar lb dests (journeys_to_destinations s) = Inr jtd" and
    r: "departure_loop E tt fs dests k ideps
          \<lparr>last_round_bag = Some lb, journeys_to_destinations = jtd,
           run_calls = run_calls s @ [(d, seed)]\<rparr> = Inr s'"
    by (auto split: if_splits option.splits sum.splits prod.splits)
  from run_calls_departure_loop_mono[OF r] have "(d, seed) \<in> set (run_calls s')" by simp
  with Cons.prems(2) run lb have
    "\<forall>to_stops. (name, to_stops) \<in> set dests \<longrightarrow>
      best_legs_to_destination_station E to_stops lb = [] \<or>
      reconstruct_journeys E fs (best_legs_to_destination_station E to_stops lb) brs ar = []"
    by blast
  from untouched_collect_destinations[OF c this] Cons.IH[OF r Cons.prems(2)] show ?case by simp
qed

lemma map_of_initial_state:
  "name \<in> set (map fst dests) \<Longrightarrow>
   map_of (journeys_to_destinations (initial_state dests)) name = Some []"
  by (induction dests) (auto simp: initial_state_def)

lemma map_of_keep_unique:
  "map_of (keep_unique jtd) name = map_option (\<lambda>js. unique_loop js []) (map_of jtd name)"
  by (induction jtd) (auto simp: keep_unique_def)

lemma py_set_enumeration_rev_remdups: "py_set_enumeration (\<lambda>xs. rev (remdups xs))"
  by (simp add: py_set_enumeration_def)

lemmas ex_defs = run_range_mcraptor_def departure_phase_def ex_collaborators_def ex_timetable_def
  ex_get_stops_def potential_dep_secs_def sorted_reverse_def initial_state_def keep_unique_def
  extend_journeys_def ex_tst_def ex_a1_def ex_b1_def

lemmas ex_late_defs = ex_late_collaborators_def ex_defs

subsection \<open>Candidate departure times\<close>

text \<open>
  Claim C1 as stated has the candidate times depend on a departure window.  The driver
  takes no window: \<^verbatim>\<open>run_range_mcraptor(timetable, origin_station, max_rounds)\<close> calls
  \<^verbatim>\<open>get_trip_stop_times_in_range(from_stops)\<close> with the stops alone.  Whatever that
  method computes from the stops, the candidate times of platform a1 in the small network
  cannot be the departures inside every window at once: 200 lies in the window from 0 to
  250 and not in the window from 0 to 150.
\<close>

theorem candidate_departures_ignore_window:
  "\<not> (\<exists>h. \<forall>t_lo t_hi.
         set (potential_dep_secs remdups
                (ex_collaborators\<lparr>get_trip_stop_times_in_range := h\<rparr>) ex_timetable [ex_a1])
         = spec_window_departures ex_timetable [ex_a1] t_lo t_hi)"
proof
  assume "\<exists>h. \<forall>t_lo t_hi.
         set (potential_dep_secs remdups
                (ex_collaborators\<lparr>get_trip_stop_times_in_range := h\<rparr>) ex_timetable [ex_a1])
         = spec_window_departures ex_timetable [ex_a1] t_lo t_hi"
  then obtain h where h: "\<And>t_lo t_hi.
         set (potential_dep_secs remdups
                (ex_collaborators\<lparr>get_trip_stop_times_in_range := h\<rparr>) ex_timetable [ex_a1])
         = spec_window_departures ex_timetable [ex_a1] t_lo t_hi"
    by blast
  have "spec_window_departures ex_timetable [ex_a1] 0 150 =
        spec_window_departures ex_timetable [ex_a1] 0 250"
    using h[of 0 150] h[of 0 250] by simp
  moreover have "200 \<in> spec_window_departures ex_timetable [ex_a1] 0 250"
    by (simp add: spec_window_departures_def ex_timetable_def ex_tst_def ex_a1_def ex_b1_def)
  moreover have "200 \<notin> spec_window_departures ex_timetable [ex_a1] 0 150"
    by (simp add: spec_window_departures_def ex_timetable_def ex_tst_def ex_a1_def ex_b1_def)
  ultimately show False by simp
qed

text \<open>
  Claim C1, amended: for every timetable and origin stops, the candidate departure times
  are exactly the departure times of the trip stop times that
  \<^verbatim>\<open>get_trip_stop_times_in_range\<close> returns for the origin stops, each listed once, in
  strictly descending order; and a run that completes has called the search once per
  candidate, in that order.
\<close>

theorem candidate_departures_descending:
  assumes "py_set_enumeration enum"
  shows "set (potential_dep_secs enum E tt from_stops) =
           dts_dep ` set (get_trip_stop_times_in_range E (trip_stop_times tt) from_stops) \<and>
         sorted_wrt (>) (potential_dep_secs enum E tt from_stops) \<and>
         (\<forall>s. departure_phase enum E tt origin_station max_rounds = Inr s \<and>
              get_stops E (stations tt) origin_station = Inr from_stops \<longrightarrow>
              map fst (run_calls s) = potential_dep_secs enum E tt from_stops)"
proof (intro conjI allI impI)
  show "set (potential_dep_secs enum E tt from_stops) =
          dts_dep ` set (get_trip_stop_times_in_range E (trip_stop_times tt) from_stops)"
    using assms by (simp add: potential_dep_secs_def set_sorted_reverse py_set_enumeration_def)
  show "sorted_wrt (>) (potential_dep_secs enum E tt from_stops)"
    using assms by (simp add: potential_dep_secs_def sorted_reverse_strict py_set_enumeration_def)
next
  fix s
  assume a: "departure_phase enum E tt origin_station max_rounds = Inr s \<and>
             get_stops E (stations tt) origin_station = Inr from_stops"
  then obtain dests where
    "departure_loop E tt from_stops dests max_rounds
       (List.enumerate 0 (potential_dep_secs enum E tt from_stops)) (initial_state dests) = Inr s"
    by (auto simp: departure_phase_def Let_def split: sum.splits)
  from departure_loop_calls[OF this] show "map fst (run_calls s) = potential_dep_secs enum E tt from_stops"
    by (simp add: initial_state_def map_fst_seeded_calls)
qed

theorem candidate_departures_descending_witness:
  "py_set_enumeration remdups \<and>
   set (potential_dep_secs remdups ex_collaborators ex_timetable [ex_a1]) = {100, 200} \<and>
   potential_dep_secs remdups ex_collaborators ex_timetable [ex_a1] = [200, 100] \<and>
   (\<exists>s. departure_phase remdups ex_collaborators ex_timetable ''A'' 5 = Inr s \<and>
        map fst (run_calls s) = [200, 100])"
proof -
  have e: "py_set_enumeration remdups" by (rule py_set_enumeration_remdups)
  have p: "potential_dep_secs remdups ex_collaborators ex_timetable [ex_a1] = [200, 100]"
    by (simp add: ex_defs)
  have g: "get_stops ex_collaborators (stations ex_timetable) ''A'' = Inr [ex_a1]"
    by (simp add: ex_defs)
  obtain s where s: "departure_phase remdups ex_collaborators ex_timetable ''A'' 5 = Inr s"
    by (simp add: ex_defs)
  from candidate_departures_descending[OF e, of ex_collaborators ex_timetable "[ex_a1]" "''A''" 5] s g p
  have "map fst (run_calls s) = [200, 100]" by simp
  with e p s show ?thesis by auto
qed

subsection \<open>Seeding\<close>

text \<open>
  Claim C2: in a run that completes, the search of the first departure time is called
  without a seed, and the search of every later departure time is called with the bag
  \<^verbatim>\<open>bag_round_stop[actual_rounds]\<close> that the search before it returned.  (The shallow
  copy that the source takes of that dictionary is the same value.)
\<close>

theorem first_search_unseeded_later_seeded:
  assumes "departure_phase enum E tt origin_station max_rounds = Inr s"
    and "get_stops E (stations tt) origin_station = Inr from_stops"
  shows "length (run_calls s) = length (potential_dep_secs enum E tt from_stops) \<and>
         (potential_dep_secs enum E tt from_stops \<noteq> [] \<longrightarrow> snd (run_calls s ! 0) = None) \<and>
         (\<forall>i. Suc i < length (potential_dep_secs enum E tt from_stops) \<longrightarrow>
            (\<exists>bag. snd (run_calls s ! Suc i) = Some bag \<and>
               (case mcraptor_run E tt from_stops (fst (run_calls s ! i)) max_rounds
                       (snd (run_calls s ! i)) of
                  (bag_round_stop, actual_rounds) \<Rightarrow> bag_round_stop actual_rounds = Some bag)))"
proof -
  let ?deps = "potential_dep_secs enum E tt from_stops"
  let ?sc = "seeded_calls E tt from_stops max_rounds None ?deps"
  from assms obtain dests where
    "departure_loop E tt from_stops dests max_rounds (List.enumerate 0 ?deps) (initial_state dests)
       = Inr s"
    by (auto simp: departure_phase_def Let_def split: sum.splits)
  from departure_loop_calls[OF this] have
    calls: "run_calls s = ?sc" and
    seeds: "\<forall>i. Suc i < length ?deps \<longrightarrow> snd (?sc ! Suc i) \<noteq> None"
    by (simp_all add: initial_state_def)
  have "\<exists>bag. snd (?sc ! Suc i) = Some bag \<and>
          (case mcraptor_run E tt from_stops (fst (?sc ! i)) max_rounds (snd (?sc ! i)) of
             (bag_round_stop, actual_rounds) \<Rightarrow> bag_round_stop actual_rounds = Some bag)"
    if i: "Suc i < length ?deps" for i
  proof -
    from seeds i obtain bag where bag: "snd (?sc ! Suc i) = Some bag" by auto
    have f: "fst (?sc ! i) = ?deps ! i"
      using i map_fst_seeded_calls[of E tt from_stops max_rounds None ?deps]
      by (metis Suc_lessD length_seeded_calls nth_map)
    obtain brs ar where
      run: "mcraptor_run E tt from_stops (fst (?sc ! i)) max_rounds (snd (?sc ! i)) = (brs, ar)"
      by (cases "mcraptor_run E tt from_stops (fst (?sc ! i)) max_rounds (snd (?sc ! i))")
    from seeded_calls_next[OF i, of E tt from_stops max_rounds None] f run bag
    have "brs ar = Some bag" by simp
    with bag run show ?thesis by simp
  qed
  with calls show ?thesis
    by (simp add: length_seeded_calls seeded_calls_first)
qed

theorem first_search_unseeded_later_seeded_witness:
  "\<exists>s. departure_phase remdups ex_collaborators ex_timetable ''A'' 5 = Inr s \<and>
       get_stops ex_collaborators (stations ex_timetable) ''A'' = Inr [ex_a1] \<and>
       length (run_calls s) = 2 \<and>
       snd (run_calls s ! 0) = None \<and>
       snd (run_calls s ! 1) = Some [200] \<and>
       fst (mcraptor_run ex_collaborators ex_timetable [ex_a1] 200 5 None) 0 = Some [200]"
proof -
  obtain s where s: "departure_phase remdups ex_collaborators ex_timetable ''A'' 5 = Inr s"
    by (simp add: ex_defs)
  have g: "get_stops ex_collaborators (stations ex_timetable) ''A'' = Inr [ex_a1]"
    by (simp add: ex_defs)
  have p: "potential_dep_secs remdups ex_collaborators ex_timetable [ex_a1] = [200, 100]"
    by (simp add: ex_defs)
  have c: "run_calls s ! 0 = (200, None)"
    using s by (auto simp: ex_defs)
  have r: "mcraptor_run ex_collaborators ex_timetable [ex_a1] 200 5 None = ([0 \<mapsto> [200]], 0)"
    by (simp add: ex_collaborators_def)
  from first_search_unseeded_later_seeded[OF s g] p c r have
    "length (run_calls s) = 2 \<and> snd (run_calls s ! 0) = None \<and> snd (run_calls s ! 1) = Some [200]"
    by simp
  with s g r show ?thesis by simp
qed

subsection \<open>Unique journeys\<close>

text \<open>
  Claim C3: every list of journeys that \<^verbatim>\<open>run_range_mcraptor\<close> returns is the list
  accumulated by the loop over the departure times with every journey that occurs earlier
  in that list left out, so it holds the first occurrences in the order of accumulation
  and no journey twice.
\<close>

theorem returned_journeys_first_occurrences:
  assumes "run_range_mcraptor enum E tt origin_station max_rounds = Inr result"
  shows "\<exists>s. departure_phase enum E tt origin_station max_rounds = Inr s \<and>
           result =
             map (\<lambda>(name, journeys).
                    (name, map snd (filter (\<lambda>(i, journey). journey \<notin> set (take i journeys))
                                      (List.enumerate 0 journeys))))
               (journeys_to_destinations s) \<and>
           (\<forall>(name, journeys) \<in> set result. distinct journeys)"
proof -
  from assms obtain s where
    s: "departure_phase enum E tt origin_station max_rounds = Inr s" and
    r: "result = keep_unique (journeys_to_destinations s)"
    by (auto simp: run_range_mcraptor_def split: sum.splits)
  have "result =
          map (\<lambda>(name, journeys).
                 (name, map snd (filter (\<lambda>(i, journey). journey \<notin> set (take i journeys))
                                   (List.enumerate 0 journeys))))
            (journeys_to_destinations s)"
    by (simp add: r keep_unique_def unique_loop_first_occurrences[of _ "[]" 0])
  moreover have "\<forall>(name, journeys) \<in> set result. distinct journeys"
    unfolding r keep_unique_def by (auto simp: unique_loop_distinct)
  ultimately show ?thesis using s by blast
qed

theorem returned_journeys_first_occurrences_witness:
  "run_range_mcraptor remdups ex_collaborators ex_timetable ''A'' 5
     = Inr [(''B'', [200, 100]), (''C'', [])] \<and>
   (\<exists>s. departure_phase remdups ex_collaborators ex_timetable ''A'' 5 = Inr s \<and>
        journeys_to_destinations s = [(''B'', [200, 100, 200]), (''C'', [])] \<and>
        distinct [200, 100 :: int])"
proof -
  have r: "run_range_mcraptor remdups ex_collaborators ex_timetable ''A'' 5
             = Inr [(''B'', [200, 100]), (''C'', [])]"
    by (simp add: ex_defs)
  from returned_journeys_first_occurrences[OF r] obtain s where
    s: "departure_phase remdups ex_collaborators ex_timetable ''A'' 5 = Inr s" and
    d: "\<forall>(name, journeys) \<in> set [(''B'', [200, 100 :: int]), (''C'', [])]. distinct journeys"
    by blast
  from s have "journeys_to_destinations s = [(''B'', [200, 100, 200]), (''C'', [])]"
    by (auto simp: ex_defs)
  with r s d show ?thesis by auto
qed

subsection \<open>An empty set of departure times\<close>

text \<open>
  Claim C7 as stated has the query report an error when no trip leaves the origin.  The
  source has no such check: the loop over the departure times runs zero times and the
  dictionary of empty lists is returned.  Station C of the small network has no platform,
  so no departure.
\<close>

theorem empty_departure_set_returns_normally:
  "potential_dep_secs remdups ex_collaborators ex_timetable [] = [] \<and>
   get_stops ex_collaborators (stations ex_timetable) ''C'' = Inr [] \<and>
   run_range_mcraptor remdups ex_collaborators ex_timetable ''C'' 5
     = Inr [(''A'', []), (''B'', [])]"
  by (simp add: ex_defs)

text \<open>
  Claim C7, amended: when the stop lookups succeed and there is no candidate departure
  time, \<^verbatim>\<open>run_range_mcraptor\<close> returns normally, with the empty list of journeys for
  every destination station name.
\<close>

theorem empty_departure_set_result:
  assumes "get_stops E (stations tt) origin_station = Inr from_stops"
    and "destination_stops_of (get_stops E (stations tt)) (stations tt) [] = Inr all_stops"
    and "potential_dep_secs enum E tt from_stops = []"
  shows "run_range_mcraptor enum E tt origin_station max_rounds =
           Inr (map (\<lambda>(station_name, _). (station_name, []))
                  (AList.delete origin_station all_stops))"
  using assms
  by (simp add: run_range_mcraptor_def departure_phase_def initial_state_def keep_unique_def
      case_prod_unfold)

theorem empty_departure_set_result_witness:
  "get_stops ex_collaborators (stations ex_timetable) ''C'' = Inr [] \<and>
   potential_dep_secs remdups ex_collaborators ex_timetable [] = [] \<and>
   run_range_mcraptor remdups ex_collaborators ex_timetable ''C'' 5
     = Inr [(''A'', []), (''B'', []) :: string \<times> int list]"
proof -
  have g: "get_stops ex_collaborators (stations ex_timetable) ''C'' = Inr []"
    by (simp add: ex_defs)
  have d: "destination_stops_of (get_stops ex_collaborators (stations ex_timetable))
             (stations ex_timetable) [] = Inr [(''A'', [ex_a1]), (''B'', [ex_b1]), (''C'', [])]"
    by (simp add: ex_defs)
  have p: "potential_dep_secs remdups ex_collaborators ex_timetable [] = []"
    by (simp add: ex_defs)
  from empty_departure_set_result[OF g d p, of 5] g p show ?thesis by simp
qed

subsection \<open>Determinism\<close>

text \<open>
  Claim C8: the one choice in the body of \<^verbatim>\<open>run_range_mcraptor\<close> that its arguments do
  not determine is the order in which \<^verbatim>\<open>list\<close> reads the set of departure times.
  Two runs on the same timetable, origin station and round budget that read the set in
  different orders return the same result.  The collaborators are functions of their
  arguments, as the specification has it (searches are deterministic and free of side
  effects).
\<close>

theorem result_independent_of_set_order:
  assumes "py_set_enumeration enum1" and "py_set_enumeration enum2"
  shows "run_range_mcraptor enum1 E tt origin_station max_rounds =
         run_range_mcraptor enum2 E tt origin_station max_rounds"
proof -
  have "potential_dep_secs enum1 E tt fs = potential_dep_secs enum2 E tt fs" for fs
    by (simp add: potential_dep_secs_def sorted_reverse_enum[OF assms])
  then have "departure_phase enum1 E tt origin_station max_rounds =
             departure_phase enum2 E tt origin_station max_rounds"
    by (simp add: departure_phase_def split: sum.splits)
  then show ?thesis
    by (simp add: run_range_mcraptor_def)
qed

theorem result_independent_of_set_order_witness:
  "py_set_enumeration remdups \<and> py_set_enumeration (\<lambda>xs. rev (remdups xs)) \<and>
   remdups [100, 200 :: int] \<noteq> rev (remdups [100, 200]) \<and>
   run_range_mcraptor remdups ex_collaborators ex_timetable ''A'' 5 =
   run_range_mcraptor (\<lambda>xs. rev (remdups xs)) ex_collaborators ex_timetable ''A'' 5"
  using result_independent_of_set_order[OF py_set_enumeration_remdups py_set_enumeration_rev_remdups,
           of ex_collaborators ex_timetable "''A''" 5]
    py_set_enumeration_remdups py_set_enumeration_rev_remdups
  by simp

subsection \<open>Keys of the result\<close>

text \<open>
  Claim C9: the keys of the dictionary that \<^verbatim>\<open>run_range_mcraptor\<close> returns are the names
  of the stations of the timetable except the name equal to the \<^verbatim>\<open>origin_station\<close>
  argument, each once; and a key is present also when the run found no journey to the
  station, its value then being the empty list.  The run found no journey to a station
  when, for every search that the run made (every entry of the log of calls) and the bag
  of its final round, the stops of the station have no destination label in that bag or
  the reconstruction from those labels gave no journey.
\<close>

theorem returned_keys_are_other_station_names:
  assumes "run_range_mcraptor enum E tt origin_station max_rounds = Inr result"
  shows "set (map fst result) = station_name ` set (stations tt) - {origin_station} \<and>
         distinct (map fst result) \<and>
         (\<forall>name from_stops all_stops s.
            name \<in> set (map fst result) \<and>
            get_stops E (stations tt) origin_station = Inr from_stops \<and>
            destination_stops_of (get_stops E (stations tt)) (stations tt) [] = Inr all_stops \<and>
            departure_phase enum E tt origin_station max_rounds = Inr s \<and>
            (\<forall>to_stops dep_secs seed bag_round_stop actual_rounds bag.
               (name, to_stops) \<in> set all_stops \<and>
               (dep_secs, seed) \<in> set (run_calls s) \<and>
               mcraptor_run E tt from_stops dep_secs max_rounds seed
                 = (bag_round_stop, actual_rounds) \<and>
               bag_round_stop actual_rounds = Some bag \<longrightarrow>
               best_legs_to_destination_station E to_stops bag = [] \<or>
               reconstruct_journeys E from_stops (best_legs_to_destination_station E to_stops bag)
                 bag_round_stop actual_rounds = [])
            \<longrightarrow> map_of result name = Some [])"
proof -
  from assms obtain s0 where
    s0: "departure_phase enum E tt origin_station max_rounds = Inr s0" and
    r: "result = keep_unique (journeys_to_destinations s0)"
    by (auto simp: run_range_mcraptor_def split: sum.splits)
  have keys: "set (map fst result) = station_name ` set (stations tt) - {origin_station}"
    "distinct (map fst result)"
    using keys_departure_phase[OF s0] r by (simp_all add: keys_keep_unique)
  have "map_of result name = Some []"
    if n: "name \<in> set (map fst result)"
      and g: "get_stops E (stations tt) origin_station = Inr from_stops"
      and d: "destination_stops_of (get_stops E (stations tt)) (stations tt) [] = Inr all_stops"
      and s: "departure_phase enum E tt origin_station max_rounds = Inr s"
      and e: "\<forall>to_stops dep_secs seed bag_round_stop actual_rounds bag.
               (name, to_stops) \<in> set all_stops \<and>
               (dep_secs, seed) \<in> set (run_calls s) \<and>
               mcraptor_run E tt from_stops dep_secs max_rounds seed
                 = (bag_round_stop, actual_rounds) \<and>
               bag_round_stop actual_rounds = Some bag \<longrightarrow>
               best_legs_to_destination_station E to_stops bag = [] \<or>
               reconstruct_journeys E from_stops (best_legs_to_destination_station E to_stops bag)
                 bag_round_stop actual_rounds = []"
    for name from_stops all_stops s
  proof -
    let ?dests = "AList.delete origin_station all_stops"
    from s s0 have eq: "s0 = s" by simp
    from s g d have l: "departure_loop E tt from_stops ?dests max_rounds
          (List.enumerate 0 (potential_dep_secs enum E tt from_stops)) (initial_state ?dests) = Inr s"
      by (simp add: departure_phase_def Let_def)
    have e': "\<forall>to_stops dep seed brs ar bag.
      (name, to_stops) \<in> set ?dests \<and> (dep, seed) \<in> set (run_calls s) \<and>
      mcraptor_run E tt from_stops dep max_rounds seed = (brs, ar) \<and> brs ar = Some bag \<longrightarrow>
      best_legs_to_destination_station E to_stops bag = [] \<or>
      reconstruct_journeys E from_stops (best_legs_to_destination_station E to_stops bag) brs ar = []"
    proof (intro allI impI)
      fix to_stops dep seed brs ar bag
      assume a: "(name, to_stops) \<in> set ?dests \<and> (dep, seed) \<in> set (run_calls s) \<and>
        mcraptor_run E tt from_stops dep max_rounds seed = (brs, ar) \<and> brs ar = Some bag"
      then have "(name, to_stops) \<in> set all_stops" by (auto simp: AList.delete_eq)
      with e a show "best_legs_to_destination_station E to_stops bag = [] \<or>
        reconstruct_journeys E from_stops (best_legs_to_destination_station E to_stops bag) brs ar = []"
        by blast
    qed
    from n r eq have "name \<in> set (map fst (journeys_to_destinations s))"
      by (simp add: keys_keep_unique)
    with keys_departure_loop[OF l] have "name \<in> set (map fst ?dests)"
      by (simp add: keys_initial_state)
    from map_of_initial_state[OF this] untouched_departure_loop_run[OF l e']
    have "map_of (journeys_to_destinations s) name = Some []" by simp
    then show ?thesis by (simp add: r eq map_of_keep_unique)
  qed
  with keys show ?thesis by blast
qed

theorem returned_keys_are_other_station_names_witness:
  "run_range_mcraptor remdups ex_late_collaborators ex_timetable ''A'' 5
     = Inr [(''B'', []), (''C'', [])] \<and>
   set (map fst [(''B'', [] :: int list), (''C'', [])]) = {''A'', ''B'', ''C''} - {''A''} \<and>
   (\<exists>s. departure_phase remdups ex_late_collaborators ex_timetable ''A'' 5 = Inr s \<and>
        run_calls s = [(200, None), (100, Some [200])]) \<and>
   best_legs_to_destination_station ex_late_collaborators [ex_b1] [2000] \<noteq> [] \<and>
   map_of [(''B'', [] :: int list), (''C'', [])] ''B'' = Some []"
proof -
  let ?E = ex_late_collaborators
  have r: "run_range_mcraptor remdups ?E ex_timetable ''A'' 5 = Inr [(''B'', []), (''C'', [])]"
    by (simp add: ex_late_defs)
  have g: "get_stops ?E (stations ex_timetable) ''A'' = Inr [ex_a1]"
    by (simp add: ex_late_defs)
  have d: "destination_stops_of (get_stops ?E (stations ex_timetable))
             (stations ex_timetable) [] = Inr [(''A'', [ex_a1]), (''B'', [ex_b1]), (''C'', [])]"
    by (simp add: ex_late_defs)
  obtain s where
    s: "departure_phase remdups ?E ex_timetable ''A'' 5 = Inr s" and
    c: "run_calls s = [(200, None), (100, Some [200])]"
    by (simp add: ex_late_defs)
  have e: "\<forall>to_stops dep_secs seed bag_round_stop actual_rounds bag.
             (''B'', to_stops) \<in> set [(''A'', [ex_a1]), (''B'', [ex_b1]), (''C'', [])] \<and>
             (dep_secs, seed) \<in> set (run_calls s) \<and>
             mcraptor_run ?E ex_timetable [ex_a1] dep_secs 5 seed = (bag_round_stop, actual_rounds) \<and>
             bag_round_stop actual_rounds = Some bag \<longrightarrow>
             best_legs_to_destination_station ?E to_stops bag = [] \<or>
             reconstruct_journeys ?E [ex_a1] (best_legs_to_destination_station ?E to_stops bag)
               bag_round_stop actual_rounds = []"
    unfolding c by (auto simp: ex_late_collaborators_def ex_collaborators_def)
  have m: "''B'' \<in> set (map fst [(''B'', [] :: int list), (''C'', [])])" by simp
  have other: "best_legs_to_destination_station ?E [ex_b1] [2000] \<noteq> []"
    by (simp add: ex_late_collaborators_def ex_collaborators_def)
  from returned_keys_are_other_station_names[OF r] m g d s e
  have "map_of [(''B'', [] :: int list), (''C'', [])] ''B'' = Some []"
    by blast
  with returned_keys_are_other_station_names[OF r] r s c other show ?thesis
    by (auto simp: ex_timetable_def)
qed

section \<open>Properties of the GTFS ingestion\<close>

subsection \<open>Auxiliary facts\<close>

lemma weekday_lt_7: "weekday d < 7"
  by (simp add: weekday_def)

lemma mem_merge_on_service_id:
  "(t, c) \<in> set (merge_on_service_id trips calendar) \<longleftrightarrow>
     t \<in> set trips \<and> c \<in> set calendar \<and> service_id c = trip_service_id t"
  by (auto simp: merge_on_service_id_def)

lemma mem_filter_on_departure_date:
  assumes "w < 7"
  shows "r \<in> set (filter_on_departure_date w d rows) \<longleftrightarrow>
           r \<in> set rows \<and> start_date (snd r) \<le> d \<and> d \<le> end_date (snd r) \<and>
           day_flag w (snd r) = 1"
proof -
  from assms consider "w = 0" | "w = 1" | "w = 2" | "w = 3" | "w = 4" | "w = 5" | "w = 6"
    by linarith
  then show ?thesis
    by cases (auto simp: filter_on_departure_date_def day_flag_def)
qed

lemma mem_read_calendar_merge:
  "(t, c) \<in> set (merge_on_service_id (read_trips feed agencies) (read_calendar feed agencies)) \<longleftrightarrow>
     t \<in> set (read_trips feed agencies) \<and> c \<in> set (calendar_txt feed) \<and>
     service_id c = trip_service_id t"
  by (auto simp: mem_merge_on_service_id read_calendar_def)

lemma consistent_stations_add:
  "\<forall>st \<in> set sts. \<forall>s \<in> set (station_stops st). stop_station s = station_id st \<Longrightarrow>
   \<forall>st \<in> set (stations_add \<lparr>station_id = i, station_name = n, station_stops = []\<rparr> sts).
     \<forall>s \<in> set (station_stops st). stop_station s = station_id st"
  by (auto simp: stations_add_def)

lemma consistent_add_stations:
  "\<forall>st \<in> set sts. \<forall>s \<in> set (station_stops st). stop_station s = station_id st \<Longrightarrow>
   \<forall>st \<in> set (add_stations rows sts). \<forall>s \<in> set (station_stops st). stop_station s = station_id st"
proof (induction rows arbitrary: sts)
  case Nil
  then show ?case by simp
next
  case (Cons r rows)
  show ?case
  proof (cases "parent_station r = None")
    case True
    from Cons.IH[OF consistent_stations_add[OF Cons.prems]] True show ?thesis by simp
  next
    case False
    with Cons.IH[OF Cons.prems] show ?thesis by auto
  qed
qed

lemma consistent_add_stop:
  "\<forall>st \<in> set sts. \<forall>s \<in> set (station_stops st). stop_station s = station_id st \<Longrightarrow>
   stop_station new = p \<Longrightarrow>
   \<forall>st \<in> set (add_stop p new sts). \<forall>s \<in> set (station_stops st). stop_station s = station_id st"
  by (induction sts) auto

lemma consistent_add_stops:
  "add_stops rows (sts, ss) = Inr (sts', ss') \<Longrightarrow>
   \<forall>st \<in> set sts. \<forall>s \<in> set (station_stops st). stop_station s = station_id st \<Longrightarrow>
   \<forall>st \<in> set sts'. \<forall>s \<in> set (station_stops st). stop_station s = station_id st"
proof (induction rows arbitrary: sts ss)
  case Nil
  then show ?case by simp
next
  case (Cons r rows)
  show ?case
  proof (cases "parent_station r")
    case None
    with Cons.prems(1) have "add_stops rows (sts, ss) = Inr (sts', ss')" by simp
    from Cons.IH[OF this Cons.prems(2)] show ?thesis .
  next
    case (Some p)
    with Cons.prems(1) obtain st where
      f: "find (\<lambda>st. station_id st = p) sts = Some st" and
      r: "add_stops rows
            (add_stop p \<lparr>stop_id = sr_stop_id r, stop_name = sr_stop_name r,
                         stop_station = station_id st\<rparr> sts,
             stops_add \<lparr>stop_id = sr_stop_id r, stop_name = sr_stop_name r,
                        stop_station = station_id st\<rparr> ss) = Inr (sts', ss')"
      by (auto simp: Let_def split: option.splits)
    from f have "station_id st = p" by (auto simp: find_Some_iff)
    then have "\<forall>st' \<in> set (add_stop p \<lparr>stop_id = sr_stop_id r, stop_name = sr_stop_name r,
                                          stop_station = station_id st\<rparr> sts).
                 \<forall>s \<in> set (station_stops st'). stop_station s = station_id st'"
      by (intro consistent_add_stop[OF Cons.prems(2)]) simp
    from Cons.IH[OF r this] show ?thesis .
  qed
qed

lemma mem_station_transfers:
  "x \<in> set (station_transfers c st) \<longleftrightarrow>
     from_stop x \<in> set (station_stops st) \<and> to_stop x \<in> set (station_stops st) \<and>
     stop_ne (from_stop x) (to_stop x) \<and> layovertime x = c"
  by (cases x) (auto simp: station_transfers_def)

lemma mem_add_transfers:
  "x \<in> set (add_transfers c sts) \<longleftrightarrow>
     (\<exists>st \<in> set sts. from_stop x \<in> set (station_stops st) \<and> to_stop x \<in> set (station_stops st) \<and>
        stop_ne (from_stop x) (to_stop x) \<and> layovertime x = c)"
  by (auto simp: add_transfers_def mem_station_transfers)

lemma fare_trip_stop_times_of:
  "trip_stop_times_of hint get False sts ss t rows = Inr tsts \<Longrightarrow> \<forall>x \<in> set tsts. fare x = 0"
proof (induction rows arbitrary: tsts)
  case Nil
  then show ?case by simp
next
  case (Cons r rows)
  obtain idx stop_time where r: "r = (idx, stop_time)" by (cases r)
  from Cons.prems r obtain s rest where
    "trip_stop_times_of hint get False sts ss t rows = Inr rest" and
    "tsts = \<lparr>tst_trip = t, stopidx = idx, tst_stop = s, dts_arr = arrival_time stop_time,
             dts_dep = departure_time stop_time, fare = 0\<rparr> # rest"
    by (auto simp: Let_def split: sum.splits)
  with Cons.IH show ?case by simp
qed

lemma fare_add_trips:
  "add_trips hint get False sts ss stop_times rows = Inr tsts \<Longrightarrow> \<forall>x \<in> set tsts. fare x = 0"
proof (induction rows arbitrary: tsts)
  case Nil
  then show ?case by simp
next
  case (Cons r rows)
  from Cons.prems obtain first later where
    f: "trip_stop_times_of hint get False sts ss \<lparr>long_name = trip_headsign (fst r)\<rparr>
          (List.enumerate 0 (sort_key stop_sequence
             (filter (\<lambda>s. st_trip_id s = trip_id (fst r)) stop_times))) = Inr first" and
    l: "add_trips hint get False sts ss stop_times rows = Inr later" and
    t: "tsts = first @ later"
    by (auto simp: Let_def split: sum.splits)
  from fare_trip_stop_times_of[OF f] Cons.IH[OF l] t show ?case by auto
qed

lemma ex_date_facts: "valid_date ex_date" "weekday ex_date = 3" "date_as_int ex_date = 20250403"
  by (simp_all add: ex_date_def valid_date_def days_in_month_def is_leap_def weekday_def
      toordinal_def days_before_year_def days_before_month_def date_as_int_def)

lemma ex_stations:
  "add_stops (gt_stops ex_gtfs) (add_stations (gt_stops ex_gtfs) [], []) =
    Inr ([\<lparr>station_id = ''S'', station_name = ''South'',
              station_stops =
                [\<lparr>stop_id = ''p1'', stop_name = ''South 1'', stop_station = ''S''\<rparr>,
                 \<lparr>stop_id = ''p2'', stop_name = ''South 2'', stop_station = ''S''\<rparr>]\<rparr>,
             \<lparr>station_id = ''R'', station_name = ''Rotterdam Centraal'',
              station_stops =
                [\<lparr>stop_id = ''q1'', stop_name = ''Rotterdam 1'', stop_station = ''R''\<rparr>]\<rparr>],
            [\<lparr>stop_id = ''p1'', stop_name = ''South 1'', stop_station = ''S''\<rparr>,
             \<lparr>stop_id = ''p2'', stop_name = ''South 2'', stop_station = ''S''\<rparr>,
             \<lparr>stop_id = ''q1'', stop_name = ''Rotterdam 1'', stop_station = ''R''\<rparr>])"
  by (simp add: ex_gtfs_def ex_feed_def stations_add_def stops_add_def Let_def)

subsection \<open>The calendar filter\<close>

text \<open>
  Claim C4: for every departure date that is a date of the calendar,
  \<^verbatim>\<open>read_gtfs_timetable\<close> returns, and the rows of its trips frame are exactly the pairs of
  a trip read for the selected agencies and a calendar row with the same
  \<^verbatim>\<open>service_id\<close> such that the date lies between \<^verbatim>\<open>start_date\<close> and \<^verbatim>\<open>end_date\<close> and
  the flag of the date's day of the week is 1.  A trip without such a calendar row has no
  row in the frame, and no stop time in the stop times frame.
\<close>

theorem calendar_filter_keeps_running_trips:
  assumes "valid_date d"
  shows "\<exists>g. read_gtfs_timetable str2sec feed d agencies = Inr g \<and>
           (\<forall>t c. (t, c) \<in> set (gt_trips g) \<longleftrightarrow>
                    t \<in> set (read_trips feed agencies) \<and> c \<in> set (calendar_txt feed) \<and>
                    service_id c = trip_service_id t \<and>
                    start_date c \<le> date_as_int d \<and> date_as_int d \<le> end_date c \<and>
                    day_flag (weekday d) c = 1) \<and>
           (\<forall>s \<in> set (gt_stop_times g). \<exists>r \<in> set (gt_trips g). st_trip_id s = trip_id (fst r))"
proof -
  let ?merged = "merge_on_service_id (read_trips feed agencies) (read_calendar feed agencies)"
  let ?trips = "filter_on_departure_date (weekday d) (date_as_int d) ?merged"
  let ?g = "\<lparr>gt_trips = ?trips, gt_calendar = read_calendar feed agencies,
             gt_stop_times = read_stop_times str2sec feed ?trips,
             gt_stops = read_stops feed (read_stop_times str2sec feed ?trips)\<rparr>"
  have g: "read_gtfs_timetable str2sec feed d agencies = Inr ?g"
    using assms by (simp add: read_gtfs_timetable_def Let_def)
  have trips: "(t, c) \<in> set ?trips \<longleftrightarrow>
                 t \<in> set (read_trips feed agencies) \<and> c \<in> set (calendar_txt feed) \<and>
                 service_id c = trip_service_id t \<and>
                 start_date c \<le> date_as_int d \<and> date_as_int d \<le> end_date c \<and>
                 day_flag (weekday d) c = 1" for t c
    by (simp add: mem_filter_on_departure_date[OF weekday_lt_7] mem_read_calendar_merge)
  have "\<forall>s \<in> set (read_stop_times str2sec feed ?trips). \<exists>r \<in> set ?trips. st_trip_id s = trip_id (fst r)"
    by (auto simp: read_stop_times_def)
  with g trips show ?thesis by simp
qed

theorem calendar_filter_keeps_running_trips_witness:
  "valid_date ex_date \<and> weekday ex_date = 3 \<and>
   (\<exists>g. read_gtfs_timetable ex_str2sec ex_feed ex_date [''Sydney Trains''] = Inr g \<and>
        (trips_txt ex_feed ! 0, calendar_txt ex_feed ! 0) \<in> set (gt_trips g) \<and>
        (trips_txt ex_feed ! 1, calendar_txt ex_feed ! 1) \<notin> set (gt_trips g))"
proof -
  from calendar_filter_keeps_running_trips[OF ex_date_facts(1), of ex_str2sec ex_feed "[''Sydney Trains'']"] obtain g where
    g: "read_gtfs_timetable ex_str2sec ex_feed ex_date [''Sydney Trains''] = Inr g" and
    m: "\<And>t c. (t, c) \<in> set (gt_trips g) \<longleftrightarrow>
                t \<in> set (read_trips ex_feed [''Sydney Trains'']) \<and> c \<in> set (calendar_txt ex_feed) \<and>
                service_id c = trip_service_id t \<and>
                start_date c \<le> date_as_int ex_date \<and> date_as_int ex_date \<le> end_date c \<and>
                day_flag (weekday ex_date) c = 1"
    by blast
  have "(trips_txt ex_feed ! 0, calendar_txt ex_feed ! 0) \<in> set (gt_trips g)"
    unfolding m ex_date_facts
    by (simp add: read_trips_def read_routes_def ex_feed_def ex_calendar_row_def day_flag_def)
  moreover have "(trips_txt ex_feed ! 1, calendar_txt ex_feed ! 1) \<notin> set (gt_trips g)"
    unfolding m ex_date_facts
    by (simp add: read_trips_def read_routes_def ex_feed_def ex_calendar_row_def day_flag_def)
  ultimately show ?thesis using g ex_date_facts by blast
qed

subsection \<open>The fare supplement\<close>

text \<open>
  Claim C5: \<^verbatim>\<open>calculate_icd_fare\<close> returns 1.67 exactly when the hint of the trip lies
  between 900 and 1099 and either the hint is even and the station of the stop equals
  \<^verbatim>\<open>stations.get("Schiphol Airport")\<close>, or the hint is odd and the station of the stop
  equals \<^verbatim>\<open>stations.get("Rotterdam Centraal")\<close>; in every other case it returns 0.  When
  \<^verbatim>\<open>icd_fix\<close> is not set, every trip stop time that \<^verbatim>\<open>gtfs_to_pyraptor_timetable\<close>
  constructs has fare 0.
\<close>

theorem icd_fare_rule:
  "(calculate_icd_fare hint get t s sts = 167 / 100 \<longleftrightarrow>
      900 \<le> hint t \<and> hint t \<le> 1099 \<and>
      (even (hint t) \<and> station_eq s (get sts ''Schiphol Airport'') \<or>
       odd (hint t) \<and> station_eq s (get sts ''Rotterdam Centraal''))) \<and>
   (calculate_icd_fare hint get t s sts \<noteq> 167 / 100 \<longrightarrow> calculate_icd_fare hint get t s sts = 0) \<and>
   (\<forall>tt. gtfs_to_pyraptor_timetable hint get TRANSFER_COST gtfs False = Inr tt \<longrightarrow>
         (\<forall>x \<in> set (trip_stop_times tt). fare x = 0))"
proof (intro conjI allI impI)
  show "calculate_icd_fare hint get t s sts = 167 / 100 \<longleftrightarrow>
      900 \<le> hint t \<and> hint t \<le> 1099 \<and>
      (even (hint t) \<and> station_eq s (get sts ''Schiphol Airport'') \<or>
       odd (hint t) \<and> station_eq s (get sts ''Rotterdam Centraal''))"
    by (auto simp: calculate_icd_fare_def even_iff_mod_2_eq_zero odd_iff_mod_2_eq_one)
  show "calculate_icd_fare hint get t s sts = 0" if "calculate_icd_fare hint get t s sts \<noteq> 167 / 100"
    using that by (auto simp: calculate_icd_fare_def split: if_splits)
next
  fix tt
  assume "gtfs_to_pyraptor_timetable hint get TRANSFER_COST gtfs False = Inr tt"
  then obtain sts' ss tsts where
    "add_trips hint get False sts' ss (gt_stop_times gtfs) (gt_trips gtfs) = Inr tsts" and
    "trip_stop_times tt = tsts"
    by (auto simp: gtfs_to_pyraptor_timetable_def Let_def split: sum.splits prod.splits)
  with fare_add_trips show "\<forall>x \<in> set (trip_stop_times tt). fare x = 0" by blast
qed

theorem icd_fare_rule_witness:
  "calculate_icd_fare (\<lambda>t. 951) ex_stations_get \<lparr>long_name = ''City''\<rparr>
     \<lparr>stop_id = ''q1'', stop_name = ''Rotterdam 1'', stop_station = ''R''\<rparr>
     [\<lparr>station_id = ''R'', station_name = ''Rotterdam Centraal'', station_stops = []\<rparr>] = 167 / 100 \<and>
   calculate_icd_fare (\<lambda>t. 950) ex_stations_get \<lparr>long_name = ''City''\<rparr>
     \<lparr>stop_id = ''q1'', stop_name = ''Rotterdam 1'', stop_station = ''R''\<rparr>
     [\<lparr>station_id = ''R'', station_name = ''Rotterdam Centraal'', station_stops = []\<rparr>] = 0 \<and>
   (\<exists>tt. gtfs_to_pyraptor_timetable (\<lambda>t. 951) ex_stations_get 180 ex_gtfs False = Inr tt \<and>
         length (trip_stop_times tt) = 2 \<and> (\<forall>x \<in> set (trip_stop_times tt). fare x = 0))"
proof -
  let ?t = "\<lparr>long_name = ''City''\<rparr>"
  let ?s = "\<lparr>stop_id = ''q1'', stop_name = ''Rotterdam 1'', stop_station = ''R''\<rparr>"
  let ?sts = "[\<lparr>station_id = ''R'', station_name = ''Rotterdam Centraal'', station_stops = []\<rparr>]"
  have a: "calculate_icd_fare (\<lambda>t. 951) ex_stations_get ?t ?s ?sts = 167 / 100"
    using icd_fare_rule[of "\<lambda>t. 951" ex_stations_get ?t ?s ?sts 180 ex_gtfs]
    by (simp add: station_eq_def ex_stations_get_def)
  have b: "calculate_icd_fare (\<lambda>t. 950) ex_stations_get ?t ?s ?sts = 0"
    using icd_fare_rule[of "\<lambda>t. 950" ex_stations_get ?t ?s ?sts 180 ex_gtfs]
    by (simp add: station_eq_def ex_stations_get_def)
  obtain tt where
    tt: "gtfs_to_pyraptor_timetable (\<lambda>t. 951) ex_stations_get 180 ex_gtfs False = Inr tt" and
    len: "length (trip_stop_times tt) = 2"
    by (simp add: gtfs_to_pyraptor_timetable_def ex_stations)
       (simp add: ex_gtfs_def stops_get_def Let_def)
  from icd_fare_rule[of "\<lambda>t. 951" ex_stations_get ?t ?s ?sts 180 ex_gtfs] tt
  have "\<forall>x \<in> set (trip_stop_times tt). fare x = 0" by blast
  with a b tt len show ?thesis by blast
qed

subsection \<open>Transfers\<close>

text \<open>
  Claim C6: the transfers of the timetable that \<^verbatim>\<open>gtfs_to_pyraptor_timetable\<close> returns
  hold, for every station and every ordered pair of different stops of that station, the
  transfer from the first to the second with layover \<^verbatim>\<open>TRANSFER_COST\<close>; and every
  transfer has that layover and joins two stops of one station, so no transfer joins
  stops of different stations.
\<close>

theorem transfers_within_stations:
  assumes "gtfs_to_pyraptor_timetable hint get TRANSFER_COST gtfs icd_fix = Inr tt"
  shows "(\<forall>st \<in> set (stations tt). \<forall>stop_i \<in> set (station_stops st).
            \<forall>stop_j \<in> set (station_stops st).
              stop_ne stop_i stop_j \<longrightarrow>
              \<lparr>from_stop = stop_i, to_stop = stop_j, layovertime = TRANSFER_COST\<rparr>
                \<in> set (transfers tt)) \<and>
         (\<forall>x \<in> set (transfers tt).
            layovertime x = TRANSFER_COST \<and>
            stop_station (from_stop x) = stop_station (to_stop x) \<and>
            (\<exists>st \<in> set (stations tt).
               from_stop x \<in> set (station_stops st) \<and> to_stop x \<in> set (station_stops st)))"
proof -
  from assms obtain sts ss tsts where
    a: "add_stops (gt_stops gtfs) (add_stations (gt_stops gtfs) [], []) = Inr (sts, ss)" and
    tt: "tt = \<lparr>stations = sts, stops = ss, trip_stop_times = tsts,
              transfers = add_transfers TRANSFER_COST sts\<rparr>"
    by (auto simp: gtfs_to_pyraptor_timetable_def Let_def split: sum.splits prod.splits)
  have "\<forall>st \<in> set (add_stations (gt_stops gtfs) []).
          \<forall>s \<in> set (station_stops st). stop_station s = station_id st"
    by (rule consistent_add_stations) simp
  from consistent_add_stops[OF a this] have
    inv: "\<forall>st \<in> set sts. \<forall>s \<in> set (station_stops st). stop_station s = station_id st" .
  have one: "\<forall>st \<in> set sts. \<forall>stop_i \<in> set (station_stops st). \<forall>stop_j \<in> set (station_stops st).
              stop_ne stop_i stop_j \<longrightarrow>
              \<lparr>from_stop = stop_i, to_stop = stop_j, layovertime = TRANSFER_COST\<rparr>
                \<in> set (add_transfers TRANSFER_COST sts)"
    by (auto simp: mem_add_transfers)
  have two: "\<forall>x \<in> set (add_transfers TRANSFER_COST sts).
            layovertime x = TRANSFER_COST \<and>
            stop_station (from_stop x) = stop_station (to_stop x) \<and>
            (\<exists>st \<in> set sts.
               from_stop x \<in> set (station_stops st) \<and> to_stop x \<in> set (station_stops st))"
    using inv by (fastforce simp: mem_add_transfers)
  from one two tt show ?thesis by simp
qed

theorem transfers_within_stations_witness:
  "\<exists>tt. gtfs_to_pyraptor_timetable (\<lambda>t. 951) ex_stations_get 180 ex_gtfs True = Inr tt \<and>
        length (transfers tt) = 2 \<and>
        \<lparr>from_stop = \<lparr>stop_id = ''p1'', stop_name = ''South 1'', stop_station = ''S''\<rparr>,
         to_stop = \<lparr>stop_id = ''p2'', stop_name = ''South 2'', stop_station = ''S''\<rparr>,
         layovertime = 180\<rparr> \<in> set (transfers tt) \<and>
        (\<forall>x \<in> set (transfers tt). stop_station (from_stop x) = stop_station (to_stop x))"
proof -
  obtain tt where
    tt: "gtfs_to_pyraptor_timetable (\<lambda>t. 951) ex_stations_get 180 ex_gtfs True = Inr tt" and
    st: "stations tt ! 0 =
           \<lparr>station_id = ''S'', station_name = ''South'',
            station_stops =
              [\<lparr>stop_id = ''p1'', stop_name = ''South 1'', stop_station = ''S''\<rparr>,
               \<lparr>stop_id = ''p2'', stop_name = ''South 2'', stop_station = ''S''\<rparr>]\<rparr>" and
    n: "length (stations tt) = 2" and
    len: "length (transfers tt) = 2"
    by (simp add: gtfs_to_pyraptor_timetable_def ex_stations)
       (simp add: ex_gtfs_def stops_get_def Let_def add_transfers_def station_transfers_def
          stop_ne_def)
  from n have mem: "stations tt ! 0 \<in> set (stations tt)" by simp
  note within = transfers_within_stations[OF tt]
  from within mem have
    "\<lparr>from_stop = \<lparr>stop_id = ''p1'', stop_name = ''South 1'', stop_station = ''S''\<rparr>,
      to_stop = \<lparr>stop_id = ''p2'', stop_name = ''South 2'', stop_station = ''S''\<rparr>,
      layovertime = 180\<rparr> \<in> set (transfers tt)"
    unfolding st by (simp add: stop_ne_def)
  moreover from within have
    "\<forall>x \<in> set (transfers tt). stop_station (from_stop x) = stop_station (to_stop x)"
    by blast
  ultimately show ?thesis using tt len by blast
qed

section \<open>Properties of the journey comparison\<close>

subsection \<open>Auxiliary facts\<close>

lemma scalar_rank_inj: "scalar_rank a = scalar_rank b \<Longrightarrow> a = b"
  by (cases a; cases b) simp_all

lemma key_rank_inj: "inj key_rank"
  by (auto simp: inj_on_def dest: scalar_rank_inj)

lemma scalar_lt_rank: "scalar_lt a b = Some r \<Longrightarrow> r = (scalar_rank a < scalar_rank b)"
  by (cases a; cases b) (auto simp: less_prod_def)

lemma lex_less_fst: "x \<noteq> y \<Longrightarrow> ((x, u) < (y, v)) = (x < (y :: 'a :: linorder))"
  by auto

lemma lex_less_snd: "((x :: 'a :: linorder, u :: 'b :: linorder) < (x, v)) = (u < v)"
  by simp

lemma scalar_lt_rank_ne:
  "a \<noteq> b \<Longrightarrow> scalar_lt a b = Some r \<Longrightarrow> r = ((scalar_rank a, u) < (scalar_rank b, v))"
  using scalar_lt_rank[of a b r] scalar_rank_inj[of a b] lex_less_fst[of "scalar_rank a" "scalar_rank b" u v]
  by blast

lemma key_lt_rank: "key_lt k1 k2 = Some r \<Longrightarrow> r = (key_rank k1 < key_rank k2)"
proof -
  obtain a1 a2 a3 where k1: "k1 = (a1, a2, a3)" by (cases k1)
  obtain b1 b2 b3 where k2: "k2 = (b1, b2, b3)" by (cases k2)
  assume h: "key_lt k1 k2 = Some r"
  show ?thesis
  proof (cases "a1 = b1")
    case False
    with h k1 k2 have "scalar_lt a1 b1 = Some r" by simp
    from scalar_lt_rank_ne[OF False this] show ?thesis
      unfolding k1 k2 key_rank.simps .
  next
    case one: True
    show ?thesis
    proof (cases "a2 = b2")
      case False
      with h k1 k2 one have "scalar_lt a2 b2 = Some r" by simp
      from scalar_lt_rank_ne[OF False this] show ?thesis
        unfolding k1 k2 key_rank.simps one lex_less_snd .
    next
      case two: True
      show ?thesis
      proof (cases "a3 = b3")
        case False
        with h k1 k2 one two have "scalar_lt a3 b3 = Some r" by simp
        from scalar_lt_rank[OF this] show ?thesis
          unfolding k1 k2 key_rank.simps one two lex_less_snd .
      next
        case True
        with h k1 k2 one two show ?thesis by simp
      qed
    qed
  qed
qed

lemma insert_leg_insort:
  "\<forall>y \<in> set ys. key_lt (leg_key y) (leg_key x) \<noteq> None \<Longrightarrow>
   insert_leg x ys = insort_key (\<lambda>l. key_rank (leg_key l)) x ys"
proof (induction ys)
  case Nil
  then show ?case by simp
next
  case (Cons y ys)
  then obtain r where r: "key_lt (leg_key y) (leg_key x) = Some r" by auto
  from key_lt_rank[OF r] have "r = (key_rank (leg_key y) < key_rank (leg_key x))" .
  with r Cons show ?case by (auto simp: not_le)
qed

lemma comparable_keys_iff:
  "comparable_keys ks \<longleftrightarrow> (\<forall>a \<in> set ks. \<forall>b \<in> set ks. key_lt a b \<noteq> None)"
  by (simp add: comparable_keys_def list_all_iff)

lemma foldr_insert_leg_sort_key:
  "comparable_keys (map leg_key ls) \<Longrightarrow>
   foldr insert_leg ls [] = sort_key (\<lambda>l. key_rank (leg_key l)) ls"
proof (induction ls)
  case Nil
  then show ?case by simp
next
  case (Cons x xs)
  from Cons.prems have sub: "comparable_keys (map leg_key xs)"
    by (auto simp: comparable_keys_iff)
  from Cons.prems have
    "\<forall>y \<in> set (sort_key (\<lambda>l. key_rank (leg_key l)) xs). key_lt (leg_key y) (leg_key x) \<noteq> None"
    by (auto simp: comparable_keys_iff)
  from insert_leg_insort[OF this] Cons.IH[OF sub] show ?case
    by (simp add: sort_key_def)
qed

lemma sorted_legs_permutation:
  assumes p: "mset ls' = mset ls"
    and c: "comparable_keys (map leg_key ls)"
    and d: "distinct (map leg_key ls)"
  shows "sorted_legs ls' = sorted_legs ls"
proof -
  let ?f = "\<lambda>l. key_rank (leg_key l)"
  from p have s: "set ls' = set ls" by (rule mset_eq_setD)
  with c have c': "comparable_keys (map leg_key ls')"
    by (simp add: comparable_keys_iff)
  from d have "inj_on leg_key (set ls)" by (simp add: distinct_map)
  then have i: "inj_on ?f (set ls')"
    unfolding s by (auto simp: inj_on_def dest!: injD[OF key_rank_inj])
  have m: "mset ls' = mset (sort_key ?f ls)" using p by simp
  have "sorted (map ?f (sort_key ?f ls))" by simp
  with m i have "sort_key ?f ls' = sort_key ?f ls"
    by (rule sort_key_inj_key_eq)
  with c c' show ?thesis
    by (simp add: sorted_legs_def foldr_insert_leg_sort_key)
qed

lemma identical_iff_same_tuples:
  "identical (compare_journey_sets a b) \<longleftrightarrow>
     set (map (\<lambda>j. journey_to_comparable_tuple (normalize_journey j)) a) =
     set (map (\<lambda>j. journey_to_comparable_tuple (normalize_journey j)) b)"
  by (auto simp: compare_journey_sets_def Let_def)

lemmas ex_journey_defs = ex_journey_def ex_leg_def ex_tied_legs_def ex_ordered_legs_def
  normalize_journey_def sorted_legs_def comparable_keys_def leg_key_def dict_get_def
  dict_get_default_def journey_to_comparable_tuple_def leg_to_tuple_def

subsection \<open>The verdict\<close>

text \<open>
  Claim C10 as stated has the verdict unchanged by every permutation of the legs inside a
  journey.  The sort of \<^verbatim>\<open>normalize_journey\<close> is stable and its key holds three of the
  five fields of a leg, so two legs with the same departure time, route and origin stop
  keep the order in which the file lists them: the journey with the two tied legs
  compares identical to itself and not to its copy with the two legs exchanged.
\<close>

theorem tied_legs_permutation_changes_verdict:
  "mset (rev ex_tied_legs) = mset ex_tied_legs \<and>
   identical (compare_journey_sets [ex_journey ex_tied_legs] [ex_journey ex_tied_legs]) \<and>
   \<not> identical (compare_journey_sets [ex_journey ex_tied_legs] [ex_journey (rev ex_tied_legs)])"
proof -
  have "journey_to_comparable_tuple (normalize_journey (ex_journey ex_tied_legs)) \<noteq>
        journey_to_comparable_tuple (normalize_journey (ex_journey (rev ex_tied_legs)))"
    by (simp add: ex_journey_defs)
  then show ?thesis
    by (simp add: identical_iff_same_tuples)
qed

text \<open>
  Claim C10, amended: \<^verbatim>\<open>compare_journey_sets\<close> reports identical exactly when the two
  lists induce the same set of comparable tuples; the verdict is unchanged when journeys
  are duplicated or reordered within a list (the lists hold the same journeys), and when
  the legs inside a journey are permuted, provided that the sort keys (departure time,
  route, origin stop) of those legs are pairwise different and can be compared with each
  other.
\<close>

theorem compare_journey_sets_verdict:
  "(identical (compare_journey_sets a b) \<longleftrightarrow>
      set (map (\<lambda>j. journey_to_comparable_tuple (normalize_journey j)) a) =
      set (map (\<lambda>j. journey_to_comparable_tuple (normalize_journey j)) b)) \<and>
   (set a' = set a \<and> set b' = set b \<longrightarrow>
      identical (compare_journey_sets a' b') = identical (compare_journey_sets a b)) \<and>
   (mset ls' = mset ls \<and> comparable_keys (map leg_key ls) \<and> distinct (map leg_key ls) \<longrightarrow>
      journey_to_comparable_tuple (normalize_journey (j\<lparr>legs := Some ls'\<rparr>)) =
      journey_to_comparable_tuple (normalize_journey (j\<lparr>legs := Some ls\<rparr>)) \<and>
      identical (compare_journey_sets (xs @ j\<lparr>legs := Some ls'\<rparr> # ys) b) =
      identical (compare_journey_sets (xs @ j\<lparr>legs := Some ls\<rparr> # ys) b) \<and>
      identical (compare_journey_sets a (xs @ j\<lparr>legs := Some ls'\<rparr> # ys)) =
      identical (compare_journey_sets a (xs @ j\<lparr>legs := Some ls\<rparr> # ys)))"
proof (intro conjI impI)
  show "identical (compare_journey_sets a b) \<longleftrightarrow>
      set (map (\<lambda>j. journey_to_comparable_tuple (normalize_journey j)) a) =
      set (map (\<lambda>j. journey_to_comparable_tuple (normalize_journey j)) b)"
    by (rule identical_iff_same_tuples)
next
  assume "set a' = set a \<and> set b' = set b"
  then show "identical (compare_journey_sets a' b') = identical (compare_journey_sets a b)"
    by (simp add: identical_iff_same_tuples)
next
  assume h: "mset ls' = mset ls \<and> comparable_keys (map leg_key ls) \<and> distinct (map leg_key ls)"
  then have "sorted_legs ls' = sorted_legs ls"
    using sorted_legs_permutation by blast
  moreover from h have "comparable_keys (map leg_key ls)" by simp
  ultimately show t: "journey_to_comparable_tuple (normalize_journey (j\<lparr>legs := Some ls'\<rparr>)) =
      journey_to_comparable_tuple (normalize_journey (j\<lparr>legs := Some ls\<rparr>))"
    by (simp add: normalize_journey_def sorted_legs_def journey_to_comparable_tuple_def)
  show "identical (compare_journey_sets (xs @ j\<lparr>legs := Some ls'\<rparr> # ys) b) =
      identical (compare_journey_sets (xs @ j\<lparr>legs := Some ls\<rparr> # ys) b)"
    by (simp add: identical_iff_same_tuples t)
  show "identical (compare_journey_sets a (xs @ j\<lparr>legs := Some ls'\<rparr> # ys)) =
      identical (compare_journey_sets a (xs @ j\<lparr>legs := Some ls\<rparr> # ys))"
    by (simp add: identical_iff_same_tuples t)
qed

theorem compare_journey_sets_verdict_witness:
  "mset (rev ex_ordered_legs) = mset ex_ordered_legs \<and>
   comparable_keys (map leg_key ex_ordered_legs) \<and>
   distinct (map leg_key ex_ordered_legs) \<and>
   set [ex_journey ex_ordered_legs, ex_journey ex_ordered_legs] = set [ex_journey ex_ordered_legs] \<and>
   identical (compare_journey_sets [ex_journey (rev ex_ordered_legs)] [ex_journey ex_ordered_legs]) \<and>
   identical (compare_journey_sets [ex_journey ex_ordered_legs, ex_journey ex_ordered_legs]
                [ex_journey ex_ordered_legs])"
proof -
  let ?J = "ex_journey ex_ordered_legs"
  have m: "mset (rev ex_ordered_legs) = mset ex_ordered_legs" by simp
  have c: "comparable_keys (map leg_key ex_ordered_legs)"
    by (simp add: comparable_keys_def leg_key_def ex_ordered_legs_def ex_leg_def
        dict_get_default_def) blast
  have d: "distinct (map leg_key ex_ordered_legs)"
    by (auto simp: leg_key_def ex_ordered_legs_def ex_leg_def dict_get_default_def)
  have s: "set [?J, ?J] = set [?J]" by simp
  have j: "(ex_journey [])\<lparr>legs := Some ls\<rparr> = ex_journey ls" for ls
    by (simp add: ex_journey_def)
  note t = compare_journey_sets_verdict[of "[?J]" "[?J]" "[?J, ?J]" "[?J]" "rev ex_ordered_legs" ex_ordered_legs
      "ex_journey []" "[]" "[]"]
  from t have same: "identical (compare_journey_sets [?J] [?J])" by simp
  from t s same have dup: "identical (compare_journey_sets [?J, ?J] [?J])" by blast
  from t m c d same have
    "identical (compare_journey_sets [ex_journey (rev ex_ordered_legs)] [?J])"
    unfolding j append_Nil by blast
  with m c d s dup show ?thesis by blast
qed

end
